theory Spec2Isabelle
  imports Main
begin

section \<open>Data model\<close>

text \<open>
  The updater of \<^verbatim>\<open>src/backend/src/discord/updater.ts\<close> works on rows of the
  persistence layer (users, their League accounts, per-champion statistics, per-queue
  ranks), on answers of the Riot API and on the guilds the Discord client knows.
  Rows carry their primary key and the key of the owning user, since the code deletes
  and updates single rows through \<^verbatim>\<open>row.$query()\<close> and reads a user's rows
  through \<^verbatim>\<open>user.$relatedQuery(...)\<close>. JavaScript numbers are modelled as
  \<^typ>\<open>int\<close>: identifiers, levels, points and counts are whole numbers.
\<close>

datatype error = Error string

record league_account =
  account_row_id :: nat
  account_user_id :: nat
  region :: string
  summoner_id :: int
  account_id :: int
  account_username :: string

record user_champion_stat =
  stat_row_id :: nat
  stat_user_id :: nat
  champion_id :: int
  level :: int
  score :: int
  games_played :: int

record user_rank =
  rank_row_id :: nat
  rank_user_id :: nat
  queue :: string
  tier :: "string option"

text \<open>
  A \<^verbatim>\<open>User\<close> instance. Its relations are loaded lazily: \<open>None\<close> is an
  \<^verbatim>\<open>undefined\<close> relation, \<open>Some rows\<close> a loaded one.
\<close>

record user =
  user_row_id :: nat
  user_snowflake :: string
  username :: string
  avatarURL :: string
  accounts :: "league_account list option"
  stats :: "user_champion_stat list option"
  ranks :: "user_rank list option"

text \<open>The Riot API answers (\<^verbatim>\<open>namespace riot\<close>).\<close>

record summoner =
  summoner_name :: string
  summoner_riot_id :: int
  summoner_accountId :: int
  summoner_profileIconId :: int

record champion_mastery_info =
  championPoints :: int
  championId :: int
  championLevel :: int

record league_entry =
  queueType :: string
  entry_tier :: string

record ranked_game =
  game_champion :: int

record champion =
  champion_key_id :: string
  champion_key :: string
  champion_name :: string
  champion_title :: string

text \<open>Discord guilds as the client caches them, and the server and role rows.\<close>

record member =
  member_id :: string
  member_roles :: "string list"

record channel =
  channel_id :: string
  is_text_channel :: bool

record guild =
  guild_id :: string
  guild_name :: string
  guild_members :: "member list"
  guild_roles :: "string list"
  guild_channels :: "channel list"

record role =
  role_row_id :: nat
  role_snowflake :: string
  role_name :: string
  announce :: bool
  role_server_id :: nat

record server =
  server_row_id :: nat
  server_snowflake :: string
  server_name :: string
  announcement_channel :: "string option"
  roles :: "role list"

record render_args =
  arg_name :: string
  arg_title :: string
  arg_icon :: string
  arg_champion :: string
  arg_background :: string

text \<open>
  Everything the updater does to the outside is recorded, in order, as an event: writes to
  the persistence layer, role operations and messages on Discord, the rendering request
  and the error report. A notification carries the variable parts of its text (the
  account's name and region).
\<close>

datatype event =
    DeleteAccount nat
  | UpdateAccount nat string
  | DeleteStat nat
  | InsertStat user_champion_stat
  | UpdateStat nat int
  | DeleteRanks nat
  | InsertRank user_rank
  | Notify string string string
  | RemoveMemberRole string string string string
  | AddMemberRole string string string string
  | Render string render_args
  | CreateMessage string string string string
  | ReportError error

text \<open>
  The mutable world: the tables, the source of fresh primary keys and the events so far.
\<close>

record world =
  db_users :: "user list"
  db_accounts :: "league_account list"
  db_stats :: "user_champion_stat list"
  db_ranks :: "user_rank list"
  next_id :: nat
  trace :: "event list"

text \<open>
  The collaborators the updater only asks: the Riot API client (each call answers or
  fails; a summoner lookup can also answer "not found"), the guilds of the Discord
  client, the server table (read only here), the opaque \<^verbatim>\<open>role.test(user)\<close> and
  \<^verbatim>\<open>role.findChampion()\<close>, the static data and the renderer.
\<close>

record env =
  getSummonerById :: "string \<Rightarrow> int \<Rightarrow> error + summoner option"
  getChampionMastery :: "string \<Rightarrow> int \<Rightarrow> error + champion_mastery_info list"
  getLeaguePositions :: "string \<Rightarrow> int \<Rightarrow> error + league_entry list"
  findRankedGamesAfter :: "string \<Rightarrow> int \<Rightarrow> int \<Rightarrow> error + ranked_game list"
  bot_guilds :: "guild list"
  server_where_snowflake :: "string \<Rightarrow> error + server option"
  server_where_id :: "nat \<Rightarrow> error + server option"
  test :: "role \<Rightarrow> user \<Rightarrow> bool"
  findChampion :: "role \<Rightarrow> champion option"
  getChampionIcon :: "champion \<Rightarrow> error + string"
  getRandomCenteredSplash :: "champion \<Rightarrow> error + string"
  render :: "string \<Rightarrow> render_args \<Rightarrow> error + string"

section \<open>JavaScript containers\<close>

text \<open>
  A \<^verbatim>\<open>Map\<close> iterates in insertion order and \<^verbatim>\<open>set\<close> on a present key keeps
  the key's place: an association list with distinct keys, read with \<^const>\<open>map_of\<close>.
\<close>

fun map_set :: "'k \<Rightarrow> 'v \<Rightarrow> ('k \<times> 'v) list \<Rightarrow> ('k \<times> 'v) list" where
  "map_set k v [] = [(k, v)]"
| "map_set k v (p # m) = (if fst p = k then (k, v) # m else p # map_set k v m)"

text \<open>\<^verbatim>\<open>Array.prototype.indexOf\<close>: the first position of the element, or -1.\<close>

fun indexOf :: "'a list \<Rightarrow> 'a \<Rightarrow> int" where
  "indexOf [] x = - 1"
| "indexOf (y # ys) x =
     (if y = x then 0 else (let i = indexOf ys x in if i < 0 then - 1 else i + 1))"

text \<open>\<^verbatim>\<open>Array.prototype.find\<close>: the first element passing the test, if any.\<close>

fun find_first :: "('a \<Rightarrow> bool) \<Rightarrow> 'a list \<Rightarrow> 'a option" where
  "find_first P [] = None"
| "find_first P (x # xs) = (if P x then Some x else find_first P xs)"

section \<open>The persistence layer\<close>

definition related_accounts :: "user \<Rightarrow> world \<Rightarrow> league_account list" where
  "related_accounts u w = filter (\<lambda>a. account_user_id a = user_row_id u) (db_accounts w)"

definition related_stats :: "user \<Rightarrow> world \<Rightarrow> user_champion_stat list" where
  "related_stats u w = filter (\<lambda>r. stat_user_id r = user_row_id u) (db_stats w)"

definition related_ranks :: "user \<Rightarrow> world \<Rightarrow> user_rank list" where
  "related_ranks u w = filter (\<lambda>r. rank_user_id r = user_row_id u) (db_ranks w)"

text \<open>
  \<^verbatim>\<open>if (!user.accounts) user.accounts = await user.$relatedQuery("accounts")\<close>:
  the accounts the function works on, and likewise for the statistics.
\<close>

definition loaded_accounts :: "user \<Rightarrow> world \<Rightarrow> league_account list" where
  "loaded_accounts u w = (case accounts u of None \<Rightarrow> related_accounts u w | Some a \<Rightarrow> a)"

definition loaded_stats :: "user \<Rightarrow> world \<Rightarrow> user_champion_stat list" where
  "loaded_stats u w = (case stats u of None \<Rightarrow> related_stats u w | Some r \<Rightarrow> r)"

text \<open>\<^verbatim>\<open>user.$relatedQuery("ranks").delete()\<close>\<close>

definition delete_ranks :: "user \<Rightarrow> world \<Rightarrow> world" where
  "delete_ranks u w =
     w\<lparr>db_ranks := filter (\<lambda>r. rank_user_id r \<noteq> user_row_id u) (db_ranks w),
       trace := trace w @ [DeleteRanks (user_row_id u)]\<rparr>"

text \<open>\<^verbatim>\<open>user.$relatedQuery("ranks").insert({ queue, tier })\<close>\<close>

definition new_rank :: "user \<Rightarrow> string \<Rightarrow> string option \<Rightarrow> world \<Rightarrow> user_rank" where
  "new_rank u q t w =
     \<lparr>rank_row_id = next_id w, rank_user_id = user_row_id u, queue = q, tier = t\<rparr>"

definition insert_rank :: "user \<Rightarrow> string \<Rightarrow> string option \<Rightarrow> world \<Rightarrow> world" where
  "insert_rank u q t w =
     w\<lparr>db_ranks := db_ranks w @ [new_rank u q t w],
       next_id := Suc (next_id w),
       trace := trace w @ [InsertRank (new_rank u q t w)]\<rparr>"

section \<open>fetchRanked\<close>

text \<open>\<^verbatim>\<open>config.riot.tiers\<close>, as the configuration template gives it.\<close>

definition riot_tiers :: "string list" where
  "riot_tiers = [''IRON'', ''BRONZE'', ''SILVER'', ''GOLD'', ''PLATINUM'', ''DIAMOND'',
     ''MASTER'', ''GRANDMASTER'', ''CHALLENGER'']"

text \<open>\<^verbatim>\<open>config.riot.tiers[i]\<close>: \<open>None\<close> is \<^verbatim>\<open>undefined\<close>.\<close>

definition tier_at :: "int \<Rightarrow> string option" where
  "tier_at i = (if 0 \<le> i \<and> nat i < length riot_tiers then Some (riot_tiers ! nat i) else None)"

text \<open>The body of the inner loop: one league entry merged into the map of tiers.\<close>

definition ranked_result :: "(string \<times> int) list \<Rightarrow> league_entry \<Rightarrow> (string \<times> int) list" where
  "ranked_result tiers result =
     (let old = (case map_of tiers (queueType result) of None \<Rightarrow> 0 | Some v \<Rightarrow> v);
          val = indexOf riot_tiers (entry_tier result)
      in map_set (queueType result) (if old > val then old else val) tiers)"

text \<open>The outer loop: one API call per account; a failing call ends the function.\<close>

fun ranked_accounts ::
  "env \<Rightarrow> league_account list \<Rightarrow> (string \<times> int) list \<Rightarrow> error + (string \<times> int) list" where
  "ranked_accounts E [] tiers = Inr tiers"
| "ranked_accounts E (account # rest) tiers =
     (case getLeaguePositions E (region account) (summoner_id account) of
        Inl e \<Rightarrow> Inl e
      | Inr results \<Rightarrow> ranked_accounts E rest (foldl ranked_result tiers results))"

fun ranked_inserts :: "user \<Rightarrow> (string \<times> int) list \<Rightarrow> world \<Rightarrow> world" where
  "ranked_inserts u [] w = w"
| "ranked_inserts u (p # rest) w =
     ranked_inserts u rest (insert_rank u (fst p) (tier_at (snd p)) w)"

definition fetchRanked :: "env \<Rightarrow> user \<Rightarrow> world \<Rightarrow> (error + unit) \<times> user \<times> world" where
  "fetchRanked E u w =
     (let u1 = u\<lparr>accounts := Some (loaded_accounts u w)\<rparr>
      in case ranked_accounts E (loaded_accounts u w) [] of
           Inl e \<Rightarrow> (Inl e, u1, w)
         | Inr tiers \<Rightarrow>
             (Inr (), u1\<lparr>ranks := Some []\<rparr>, ranked_inserts u1 tiers (delete_ranks u1 w)))"


section \<open>fetchMasteryScores\<close>

text \<open>
  \<^verbatim>\<open>oldScore.$query().delete()\<close> removes the row with the primary key of the
  instance; \<^verbatim>\<open>user.$relatedQuery("stats").insert({...})\<close> adds a row owned by
  the user under a fresh key.
\<close>

definition delete_stat :: "user_champion_stat \<Rightarrow> world \<Rightarrow> world" where
  "delete_stat old w =
     w\<lparr>db_stats := filter (\<lambda>r. stat_row_id r \<noteq> stat_row_id old) (db_stats w),
       trace := trace w @ [DeleteStat (stat_row_id old)]\<rparr>"

definition new_stat :: "user \<Rightarrow> int \<Rightarrow> int \<Rightarrow> int \<Rightarrow> int \<Rightarrow> world \<Rightarrow> user_champion_stat" where
  "new_stat u c l s g w =
     \<lparr>stat_row_id = next_id w, stat_user_id = user_row_id u, champion_id = c,
      level = l, score = s, games_played = g\<rparr>"

definition insert_stat :: "user \<Rightarrow> int \<Rightarrow> int \<Rightarrow> int \<Rightarrow> int \<Rightarrow> world \<Rightarrow> world" where
  "insert_stat u c l s g w =
     w\<lparr>db_stats := db_stats w @ [new_stat u c l s g w],
       next_id := Suc (next_id w),
       trace := trace w @ [InsertStat (new_stat u c l s g w)]\<rparr>"

text \<open>
  The body of the inner loop. The map \<^verbatim>\<open>scores\<close> holds, per champion, the pair
  (score, level); a champion not yet seen counts as \<^verbatim>\<open>{ score: 0, level: 0 }\<close>.
\<close>

definition mastery_entry ::
  "(int \<times> int \<times> int) list \<Rightarrow> champion_mastery_info \<Rightarrow> (int \<times> int \<times> int) list" where
  "mastery_entry scores mastery =
     (let old = (case map_of scores (championId mastery) of None \<Rightarrow> (0, 0) | Some v \<Rightarrow> v)
      in map_set (championId mastery)
           (fst old + championPoints mastery,
            if snd old > championLevel mastery then snd old else championLevel mastery)
           scores)"

fun mastery_accounts ::
  "env \<Rightarrow> league_account list \<Rightarrow> (int \<times> int \<times> int) list \<Rightarrow> error + (int \<times> int \<times> int) list" where
  "mastery_accounts E [] scores = Inr scores"
| "mastery_accounts E (account # rest) scores =
     (case getChampionMastery E (region account) (summoner_id account) of
        Inl e \<Rightarrow> Inl e
      | Inr masteries \<Rightarrow> mastery_accounts E rest (foldl mastery_entry scores masteries))"

text \<open>
  The body of the second loop, for one entry \<open>(champion, (score, level))\<close> of the map.
  \<open>st\<close> is \<^verbatim>\<open>user.stats\<close>, which the loop reads and never changes.
\<close>

definition mastery_write ::
  "user \<Rightarrow> user_champion_stat list \<Rightarrow> int \<times> int \<times> int \<Rightarrow> world \<Rightarrow> world" where
  "mastery_write u st p w =
     (case find_first (\<lambda>x. champion_id x = fst p) st of
        Some oldScore \<Rightarrow>
          if snd (snd p) = level oldScore \<and> fst (snd p) = score oldScore then w
          else insert_stat u (fst p) (snd (snd p)) (fst (snd p)) (games_played oldScore)
                 (delete_stat oldScore w)
      | None \<Rightarrow> insert_stat u (fst p) (snd (snd p)) (fst (snd p)) 0 w)"

fun mastery_writes ::
  "user \<Rightarrow> user_champion_stat list \<Rightarrow> (int \<times> int \<times> int) list \<Rightarrow> world \<Rightarrow> world" where
  "mastery_writes u st [] w = w"
| "mastery_writes u st (p # rest) w = mastery_writes u st rest (mastery_write u st p w)"

definition fetchMasteryScores :: "env \<Rightarrow> user \<Rightarrow> world \<Rightarrow> (error + unit) \<times> user \<times> world" where
  "fetchMasteryScores E u w =
     (let u1 = u\<lparr>accounts := Some (loaded_accounts u w), stats := Some (loaded_stats u w)\<rparr>
      in case mastery_accounts E (loaded_accounts u w) [] of
           Inl e \<Rightarrow> (Inl e, u1, w)
         | Inr scores \<Rightarrow>
             (let w1 = mastery_writes u1 (loaded_stats u w) scores w
              in (Inr (), u1\<lparr>stats := Some (related_stats u1 w1)\<rparr>, w1)))"

section \<open>fetchGamesPlayed\<close>

text \<open>\<^verbatim>\<open>oldValue.$query().update({ games_played: ... })\<close>\<close>

definition update_stat_games :: "user_champion_stat \<Rightarrow> int \<Rightarrow> world \<Rightarrow> world" where
  "update_stat_games old g w =
     w\<lparr>db_stats := map (\<lambda>r. if stat_row_id r = stat_row_id old then r\<lparr>games_played := g\<rparr> else r)
                      (db_stats w),
       trace := trace w @ [UpdateStat (stat_row_id old) g]\<rparr>"

definition games_entry :: "(int \<times> int) list \<Rightarrow> ranked_game \<Rightarrow> (int \<times> int) list" where
  "games_entry gamesPlayed game =
     map_set (game_champion game)
       ((case map_of gamesPlayed (game_champion game) of None \<Rightarrow> 0 | Some v \<Rightarrow> v) + 1)
       gamesPlayed"

fun games_accounts ::
  "env \<Rightarrow> league_account list \<Rightarrow> (int \<times> int) list \<Rightarrow> error + (int \<times> int) list" where
  "games_accounts E [] gamesPlayed = Inr gamesPlayed"
| "games_accounts E (account # rest) gamesPlayed =
     (case findRankedGamesAfter E (region account) (account_id account) 0 of
        Inl e \<Rightarrow> Inl e
      | Inr games \<Rightarrow> games_accounts E rest (foldl games_entry gamesPlayed games))"

definition incremental :: bool where
  "incremental = False"

definition games_write ::
  "user \<Rightarrow> user_champion_stat list \<Rightarrow> int \<times> int \<Rightarrow> world \<Rightarrow> world" where
  "games_write u st p w =
     (case find_first (\<lambda>x. champion_id x = fst p) st of
        Some oldValue \<Rightarrow>
          if (if incremental then snd p = 0 else games_played oldValue = snd p) then w
          else update_stat_games oldValue
                 (if incremental then games_played oldValue + snd p else snd p) w
      | None \<Rightarrow> insert_stat u (fst p) 0 0 (snd p) w)"

fun games_writes ::
  "user \<Rightarrow> user_champion_stat list \<Rightarrow> (int \<times> int) list \<Rightarrow> world \<Rightarrow> world" where
  "games_writes u st [] w = w"
| "games_writes u st (p # rest) w = games_writes u st rest (games_write u st p w)"

definition fetchGamesPlayed :: "env \<Rightarrow> user \<Rightarrow> world \<Rightarrow> (error + unit) \<times> user \<times> world" where
  "fetchGamesPlayed E u w =
     (let u1 = u\<lparr>accounts := Some (loaded_accounts u w), stats := Some (loaded_stats u w)\<rparr>
      in case games_accounts E (loaded_accounts u w) [] of
           Inl e \<Rightarrow> (Inl e, u1, w)
         | Inr gamesPlayed \<Rightarrow>
             (let w1 = games_writes u1 (loaded_stats u w) gamesPlayed w
              in (Inr (), u1\<lparr>stats := Some (related_stats u1 w1)\<rparr>, w1)))"

section \<open>fetchAccounts\<close>

text \<open>
  \<^verbatim>\<open>Array.prototype.slice(start, end)\<close> returns the elements from \<open>start\<close> up to,
  not including, \<open>end\<close> as a new array (a negative index counts from the end) and leaves
  the array it is called on as it is.
\<close>

definition js_slice :: "'a list \<Rightarrow> int \<Rightarrow> int \<Rightarrow> 'a list" where
  "js_slice xs start fin =
     (let n = int (length xs);
          s = (if start < 0 then max (n + start) 0 else min start n);
          e = (if fin < 0 then max (n + fin) 0 else min fin n)
      in take (nat (e - s)) (drop (nat s) xs))"

text \<open>An expression statement: the value is computed and dropped.\<close>

definition discard :: "'a \<Rightarrow> 'b \<Rightarrow> 'b" where
  "discard x y = y"

definition delete_account :: "league_account \<Rightarrow> world \<Rightarrow> world" where
  "delete_account account w =
     w\<lparr>db_accounts := filter (\<lambda>a. account_row_id a \<noteq> account_row_id account) (db_accounts w),
       trace := trace w @ [DeleteAccount (account_row_id account)]\<rparr>"

definition update_account_username :: "league_account \<Rightarrow> string \<Rightarrow> world \<Rightarrow> world" where
  "update_account_username account name w =
     w\<lparr>db_accounts := map (\<lambda>a. if account_row_id a = account_row_id account
                                then a\<lparr>account_username := name\<rparr> else a) (db_accounts w),
       trace := trace w @ [UpdateAccount (account_row_id account) name]\<rparr>"

text \<open>\<^verbatim>\<open>this.client.notify(user.snowflake, {...})\<close>, not awaited.\<close>

definition notify :: "user \<Rightarrow> league_account \<Rightarrow> world \<Rightarrow> world" where
  "notify u account w =
     w\<lparr>trace := trace w @ [Notify (user_snowflake u) (account_username account) (region account)]\<rparr>"

text \<open>
  The loop over \<^verbatim>\<open>copy\<close>. \<open>accs\<close> is the array \<^verbatim>\<open>user.accounts\<close>; the
  elements of \<^verbatim>\<open>copy\<close> are the same objects, so the assignment
  \<^verbatim>\<open>account.username = summoner.name\<close> shows in \<open>accs\<close> at the position \<open>i\<close>
  of the account.
\<close>

fun accounts_loop ::
  "env \<Rightarrow> user \<Rightarrow> nat \<Rightarrow> league_account list \<Rightarrow> league_account list \<Rightarrow> world \<Rightarrow>
     (error + unit) \<times> league_account list \<times> world" where
  "accounts_loop E u i [] accs w = (Inr (), accs, w)"
| "accounts_loop E u i (account # rest) accs w =
     (case getSummonerById E (region account) (summoner_id account) of
        Inl e \<Rightarrow> (Inl e, accs, w)
      | Inr None \<Rightarrow>
          accounts_loop E u (Suc i) rest
            accs
            (notify u account
               (discard (js_slice accs (indexOf accs account) 1)
                  (delete_account account w)))
      | Inr (Some summoner) \<Rightarrow>
          if summoner_name summoner \<noteq> account_username account then
            accounts_loop E u (Suc i) rest
              (accs[i := account\<lparr>account_username := summoner_name summoner\<rparr>])
              (update_account_username account (summoner_name summoner) w)
          else accounts_loop E u (Suc i) rest accs w)"

definition fetchAccounts :: "env \<Rightarrow> user \<Rightarrow> world \<Rightarrow> (error + unit) \<times> user \<times> world" where
  "fetchAccounts E u w =
     (case accounts_loop E u 0 (loaded_accounts u w) (loaded_accounts u w) w of
        (r, accs, w1) \<Rightarrow> (r, u\<lparr>accounts := Some accs\<rparr>, w1))"


section \<open>announcePromotion\<close>

definition default_icon :: string where
  "default_icon = ''https://i.imgur.com/uW9gZWO.png''"

definition default_background :: string where
  "default_background = ''https://i.imgur.com/XVKpmRV.png''"

definition promotion_template :: string where
  "promotion_template = ''./graphics/promotion.html''"

text \<open>
  \<^verbatim>\<open>champion ? await StaticData.getChampionIcon(champion) : "https://..."\<close> with
  \<^verbatim>\<open>champion = role.findChampion()\<close>, and the same for the background.
\<close>

definition championIcon :: "env \<Rightarrow> role \<Rightarrow> error + string" where
  "championIcon E r =
     (case findChampion E r of None \<Rightarrow> Inr default_icon | Some c \<Rightarrow> getChampionIcon E c)"

definition championBg :: "env \<Rightarrow> role \<Rightarrow> error + string" where
  "championBg E r =
     (case findChampion E r of
        None \<Rightarrow> Inr default_background | Some c \<Rightarrow> getRandomCenteredSplash E c)"

text \<open>
  The part of \<^verbatim>\<open>announcePromotion\<close> after its guards: the two images, the
  rendering request and, once the renderer has answered, the message in the channel.
  The time stamp and the fixed colours and sizes are left out.
\<close>

definition promotion_args :: "user \<Rightarrow> role \<Rightarrow> string \<Rightarrow> string \<Rightarrow> render_args" where
  "promotion_args u r icon bg =
     \<lparr>arg_name = username u, arg_title = role_name r, arg_icon = avatarURL u,
      arg_champion = icon, arg_background = bg\<rparr>"

definition promotion_message ::
  "env \<Rightarrow> user \<Rightarrow> role \<Rightarrow> channel \<Rightarrow> world \<Rightarrow> (error + unit) \<times> world" where
  "promotion_message E u r announceChannel w =
     (case championIcon E r of
        Inl e \<Rightarrow> (Inl e, w)
      | Inr icon \<Rightarrow>
          (case championBg E r of
             Inl e \<Rightarrow> (Inl e, w)
           | Inr bg \<Rightarrow>
               (case render E promotion_template (promotion_args u r icon bg) of
                  Inl e \<Rightarrow>
                    (Inl e,
                     w\<lparr>trace := trace w @
                          [Render promotion_template (promotion_args u r icon bg)]\<rparr>)
                | Inr file \<Rightarrow>
                    (Inr (),
                     w\<lparr>trace := trace w @
                          [Render promotion_template (promotion_args u r icon bg),
                           CreateMessage (channel_id announceChannel)
                             (username u @ '' just got promoted to '' @ role_name r @ ''!'')
                             (avatarURL u) file]\<rparr>))))"

definition announcePromotion ::
  "env \<Rightarrow> user \<Rightarrow> role \<Rightarrow> guild \<Rightarrow> world \<Rightarrow> (error + unit) \<times> world" where
  "announcePromotion E u r g w =
     (if \<not> announce r then (Inr (), w)
      else case server_where_id E (role_server_id r) of
             Inl e \<Rightarrow> (Inl e, w)
           | Inr None \<Rightarrow> (Inr (), w)
           | Inr (Some server) \<Rightarrow>
               (case announcement_channel server of
                  None \<Rightarrow> (Inr (), w)
                | Some announceChannelId \<Rightarrow>
                    if announceChannelId = [] then (Inr (), w)
                    else (case find_first (\<lambda>c. channel_id c = announceChannelId)
                                 (guild_channels g) of
                            None \<Rightarrow> (Inr (), w)
                          | Some announceChannel \<Rightarrow>
                              if \<not> is_text_channel announceChannel then (Inr (), w)
                              else promotion_message E u r announceChannel w)))"

section \<open>updateUserOnGuild and updateUser\<close>

text \<open>
  \<^verbatim>\<open>new Set(xs)\<close> keeps the first occurrence of every element, in order;
  \<^verbatim>\<open>has\<close> is membership.
\<close>

fun new_Set :: "'a list \<Rightarrow> 'a list" where
  "new_Set [] = []"
| "new_Set (x # xs) = x # filter (\<lambda>y. y \<noteq> x) (new_Set xs)"

definition remove_reason :: string where
  "remove_reason = ''Orianna - User does not meet requirements for this role.''"

definition add_reason :: string where
  "add_reason = ''Orianna - User meets requirements for role.''"

definition removeMemberRole :: "guild \<Rightarrow> string \<Rightarrow> string \<Rightarrow> string \<Rightarrow> world \<Rightarrow> world" where
  "removeMemberRole g uid rid reason w =
     w\<lparr>trace := trace w @ [RemoveMemberRole (guild_id g) uid rid reason]\<rparr>"

definition addMemberRole :: "guild \<Rightarrow> string \<Rightarrow> string \<Rightarrow> string \<Rightarrow> world \<Rightarrow> world" where
  "addMemberRole g uid rid reason w =
     w\<lparr>trace := trace w @ [AddMemberRole (guild_id g) uid rid reason]\<rparr>"

text \<open>
  The body of the loop over \<^verbatim>\<open>allRoles\<close>. The role operations and
  \<^verbatim>\<open>announcePromotion\<close> are called without \<^verbatim>\<open>await\<close>: what they do is done
  (their events are recorded where the call stands), and a failure of theirs does not
  reach this function.
\<close>

definition role_step ::
  "env \<Rightarrow> user \<Rightarrow> server \<Rightarrow> guild \<Rightarrow> string list \<Rightarrow> string list \<Rightarrow> world \<Rightarrow> string \<Rightarrow> world" where
  "role_step E u server g userHas shouldHave w role =
     (if role \<notin> set (guild_roles g) then w
      else
        (let w1 = (if role \<in> set userHas \<and> role \<notin> set shouldHave
                   then removeMemberRole g (user_snowflake u) role remove_reason w else w)
         in if role \<notin> set userHas \<and> role \<in> set shouldHave then
              (case find_first (\<lambda>x. role_snowflake x = role) (roles server) of
                 None \<Rightarrow> addMemberRole g (user_snowflake u) role add_reason w1
               | Some r \<Rightarrow>
                   snd (announcePromotion E u r g
                          (addMemberRole g (user_snowflake u) role add_reason w1)))
            else w1))"

definition allRoles :: "server \<Rightarrow> string list" where
  "allRoles server = new_Set (map role_snowflake (roles server))"

definition shouldHave :: "env \<Rightarrow> user \<Rightarrow> server \<Rightarrow> string list" where
  "shouldHave E u server =
     new_Set (map role_snowflake (filter (\<lambda>x. test E x u) (roles server)))"

definition userHas :: "member \<Rightarrow> string list" where
  "userHas m = new_Set (member_roles m)"

definition updateUserOnGuild :: "env \<Rightarrow> user \<Rightarrow> guild \<Rightarrow> world \<Rightarrow> (error + unit) \<times> world" where
  "updateUserOnGuild E u g w =
     (case server_where_snowflake E (guild_id g) of
        Inl e \<Rightarrow> (Inl e, w)
      | Inr None \<Rightarrow> (Inr (), w)
      | Inr (Some server) \<Rightarrow>
          (case find_first (\<lambda>m. member_id m = user_snowflake u) (guild_members g) of
             None \<Rightarrow> (Inr (), w)
           | Some m \<Rightarrow>
               (Inr (),
                foldl (role_step E u server g (userHas m) (shouldHave E u server)) w
                  (allRoles server))))"

text \<open>
  A task is an asynchronous call that has been started, here on the user instance and the
  world: it ends with a result and leaves both changed.
\<close>

type_synonym state = "user \<times> world"

type_synonym task = "state \<Rightarrow> (error + unit) \<times> state"

text \<open>
  \<^verbatim>\<open>Promise.all\<close> over tasks that have all been started. It is settled as soon as
  one task fails: the caller goes on with that failure while the tasks not yet finished
  keep running, and nobody looks at their results. The tasks are taken here in the order
  of the array: a task has finished when the next one is looked at, and at the first
  failure the rest of the array is handed back as the tasks still running. This is one of
  the schedules the code can take; the others differ in the order of the events of
  different tasks and in which of several failures is the first.
\<close>

fun promise_all :: "task list \<Rightarrow> state \<Rightarrow> (error + unit) \<times> state \<times> task list" where
  "promise_all [] s = (Inr (), s, [])"
| "promise_all (task # rest) s =
     (case task s of
        (Inl e, s1) \<Rightarrow> (Inl e, s1, rest)
      | (Inr x, s1) \<Rightarrow> promise_all rest s1)"

text \<open>The tasks still running go on to their end, whatever their results.\<close>

fun settle :: "task list \<Rightarrow> state \<Rightarrow> state" where
  "settle [] s = s"
| "settle (task # rest) s = settle rest (snd (task s))"

definition shared_guilds :: "env \<Rightarrow> user \<Rightarrow> guild list" where
  "shared_guilds E u =
     filter (\<lambda>x. user_snowflake u \<in> set (map member_id (guild_members x))) (bot_guilds E)"

text \<open>\<^verbatim>\<open>this.updateUserOnGuild(user, server)\<close> as a task.\<close>

definition guild_task :: "env \<Rightarrow> guild \<Rightarrow> task" where
  "guild_task E server =
     (\<lambda>(u, w). case updateUserOnGuild E u server w of (r, w1) \<Rightarrow> (r, u, w1))"

text \<open>
  The result of \<^verbatim>\<open>updateUser\<close> is what \<^verbatim>\<open>Promise.all\<close> gave (the handler
  under \<^verbatim>\<open>catch\<close> throws the error again), with the tasks still running.
\<close>

definition updateUser :: "env \<Rightarrow> user \<Rightarrow> world \<Rightarrow> (error + unit) \<times> world \<times> task list" where
  "updateUser E u w =
     (case promise_all (map (\<lambda>server. guild_task E server) (shared_guilds E u)) (u, w) of
        (Inl e, s1, rest) \<Rightarrow> (Inl e, snd s1, rest)
      | (Inr x, s1, rest) \<Rightarrow> (Inr x, snd s1, rest))"

section \<open>fetchAndUpdateAll\<close>

text \<open>
  The block under \<^verbatim>\<open>try\<close>. It ends with the first error of an awaited call, and
  hands back the tasks of a settled \<^verbatim>\<open>Promise.all\<close> that are still running.
\<close>

definition pipeline ::
  "env \<Rightarrow> user \<Rightarrow> world \<Rightarrow> (error + unit) \<times> user \<times> world \<times> task list" where
  "pipeline E u w =
     (case fetchAccounts E u w of
        (Inl e, u1, w1) \<Rightarrow> (Inl e, u1, w1, [])
      | (Inr x1, u1, w1) \<Rightarrow>
     (case fetchGamesPlayed E u1 w1 of
        (Inl e, u2, w2) \<Rightarrow> (Inl e, u2, w2, [])
      | (Inr x2, u2, w2) \<Rightarrow>
     (case promise_all [\<lambda>(u, w). fetchMasteryScores E u w, \<lambda>(u, w). fetchRanked E u w]
             (u2, w2) of
        (Inl e, (u4, w4), rest) \<Rightarrow> (Inl e, u4, w4, rest)
      | (Inr x3, (u4, w4), rest) \<Rightarrow>
     (case updateUser E u4 w4 of
        (r, w5, rest) \<Rightarrow> (r, u4, w5, rest)))))"

text \<open>
  \<^verbatim>\<open>User.query().where("snowflake", s).eager("[accounts, stats, ranks]").first()\<close>
\<close>

definition user_where_snowflake :: "string \<Rightarrow> world \<Rightarrow> user option" where
  "user_where_snowflake s w =
     (case find_first (\<lambda>x. user_snowflake x = s) (db_users w) of
        None \<Rightarrow> None
      | Some x \<Rightarrow>
          Some (x\<lparr>accounts := Some (related_accounts x w),
                  stats := Some (related_stats x w),
                  ranks := Some (related_ranks x w)\<rparr>))"

text \<open>
  The argument is a user instance (\<open>Inl\<close>) or a snowflake (\<open>Inr\<close>); a snowflake is
  looked up before the \<^verbatim>\<open>try\<close> block, and \<^verbatim>\<open>throw new Error(...)\<close> leaves
  the function there.
\<close>

definition resolve_user :: "user + string \<Rightarrow> world \<Rightarrow> error + user" where
  "resolve_user arg w =
     (case arg of
        Inr s \<Rightarrow>
          (case user_where_snowflake s w of
             None \<Rightarrow> Inl (Error (''User '' @ s @ '' not found.''))
           | Some dbUser \<Rightarrow> Inr dbUser)
      | Inl x \<Rightarrow> Inr x)"

text \<open>\<^verbatim>\<open>elastic.reportError(e)\<close>\<close>

definition reportError :: "error \<Rightarrow> world \<Rightarrow> world" where
  "reportError e w = w\<lparr>trace := trace w @ [ReportError e]\<rparr>"

text \<open>
  The result is a thrown error or, on return, the user instance and the world as the run
  leaves them: after an error of the block and its report, the tasks still running go on.
\<close>

definition fetchAndUpdateAll :: "env \<Rightarrow> user + string \<Rightarrow> world \<Rightarrow> (error + user) \<times> world" where
  "fetchAndUpdateAll E arg w =
     (case resolve_user arg w of
        Inl e \<Rightarrow> (Inl e, w)
      | Inr u \<Rightarrow>
          (case pipeline E u w of
             (Inl e, u1, w1, rest) \<Rightarrow>
               (case settle rest (u1, reportError e w1) of (u2, w2) \<Rightarrow> (Inr u2, w2))
           | (Inr x, u1, w1, rest) \<Rightarrow> (Inr u1, w1)))"

section \<open>Vocabulary of the properties\<close>

text \<open>
  What the Riot API answered for the accounts of a user, read off the answers themselves:
  all league entries, and the tiers seen for one queue.
\<close>

definition league_results :: "env \<Rightarrow> league_account list \<Rightarrow> league_entry list" where
  "league_results E accs =
     concat (map (\<lambda>a. case getLeaguePositions E (region a) (summoner_id a) of
                         Inl e \<Rightarrow> [] | Inr rs \<Rightarrow> rs) accs)"

definition observed_tiers :: "env \<Rightarrow> league_account list \<Rightarrow> string \<Rightarrow> string list" where
  "observed_tiers E accs q =
     map entry_tier (filter (\<lambda>r. queueType r = q) (league_results E accs))"

text \<open>The highest position in the tier list among some tiers, starting from \<open>a\<close>.\<close>

fun best :: "int \<Rightarrow> string list \<Rightarrow> int" where
  "best a [] = a"
| "best a (t # ts) = best (if a > indexOf riot_tiers t then a else indexOf riot_tiers t) ts"

text \<open>
  All mastery entries the Riot API answered for the accounts, and those of one champion.
\<close>

definition mastery_results :: "env \<Rightarrow> league_account list \<Rightarrow> champion_mastery_info list" where
  "mastery_results E accs =
     concat (map (\<lambda>a. case getChampionMastery E (region a) (summoner_id a) of
                         Inl e \<Rightarrow> [] | Inr ms \<Rightarrow> ms) accs)"

definition champion_entries ::
  "env \<Rightarrow> league_account list \<Rightarrow> int \<Rightarrow> champion_mastery_info list" where
  "champion_entries E accs c = filter (\<lambda>m. championId m = c) (mastery_results E accs)"

text \<open>The highest level among some levels, starting from \<open>a\<close>.\<close>

fun highest :: "int \<Rightarrow> int list \<Rightarrow> int" where
  "highest a [] = a"
| "highest a (l # ls) = highest (if a > l then a else l) ls"

text \<open>The statistics rows of a user for one champion.\<close>

definition user_champion_rows :: "user \<Rightarrow> int \<Rightarrow> world \<Rightarrow> user_champion_stat list" where
  "user_champion_rows u c w = filter (\<lambda>r. champion_id r = c) (related_stats u w)"

text \<open>
  The state a fetcher of statistics starts from: the relation \<^verbatim>\<open>user.stats\<close> is not
  loaded yet or holds what the table holds (as after \<^verbatim>\<open>fetchGamesPlayed\<close>, which
  reloads it), and the primary keys of the table are distinct and below the next key.
\<close>

definition stats_in_step :: "user \<Rightarrow> world \<Rightarrow> bool" where
  "stats_in_step u w = (stats u = None \<or> stats u = Some (related_stats u w))"

definition stat_keys_ok :: "world \<Rightarrow> bool" where
  "stat_keys_ok w =
     (distinct (map stat_row_id (db_stats w)) \<and>
      list_all (\<lambda>r. stat_row_id r < next_id w) (db_stats w))"

text \<open>
  A snapshot \<open>S\<close> of rows read earlier agrees with the table: a row of the table under
  the key of a snapshot row is that row, and no snapshot key is a future key.
\<close>

definition snapshot_ok :: "user_champion_stat list \<Rightarrow> world \<Rightarrow> bool" where
  "snapshot_ok S w =
     (list_all (\<lambda>r. list_all (\<lambda>s. stat_row_id r = stat_row_id s \<longrightarrow> r = s) S) (db_stats w) \<and>
      list_all (\<lambda>s. stat_row_id s < next_id w) S)"

text \<open>The games played that the row of a champion in \<open>S\<close> records, or 0 without a row.\<close>

definition carried_games :: "user_champion_stat list \<Rightarrow> int \<Rightarrow> int" where
  "carried_games S c =
     (case find_first (\<lambda>x. champion_id x = c) S of None \<Rightarrow> 0 | Some old \<Rightarrow> games_played old)"

text \<open>
  The events added between two worlds, and the kinds of event the properties of the role
  update speak about.
\<close>

definition events_since :: "world \<Rightarrow> world \<Rightarrow> event list" where
  "events_since w w' = drop (length (trace w)) (trace w')"

fun is_remove_of :: "string \<Rightarrow> event \<Rightarrow> bool" where
  "is_remove_of rid (RemoveMemberRole g u r reason) = (r = rid)"
| "is_remove_of rid e = False"

fun is_add_of :: "string \<Rightarrow> event \<Rightarrow> bool" where
  "is_add_of rid (AddMemberRole g u r reason) = (r = rid)"
| "is_add_of rid e = False"

fun is_render :: "event \<Rightarrow> bool" where
  "is_render (Render t a) = True"
| "is_render e = False"

fun is_create_message :: "event \<Rightarrow> bool" where
  "is_create_message (CreateMessage c a i f) = True"
| "is_create_message e = False"

text \<open>The role operation expected for one role, as the one event or none.\<close>

definition expected_removal :: "guild \<Rightarrow> user \<Rightarrow> string list \<Rightarrow> string list \<Rightarrow> string \<Rightarrow> event list" where
  "expected_removal g u UH SH rid =
     (if rid \<in> set (guild_roles g) \<and> rid \<in> set UH \<and> rid \<notin> set SH
      then [RemoveMemberRole (guild_id g) (user_snowflake u) rid remove_reason] else [])"

definition expected_addition :: "guild \<Rightarrow> user \<Rightarrow> string list \<Rightarrow> string list \<Rightarrow> string \<Rightarrow> event list" where
  "expected_addition g u UH SH rid =
     (if rid \<in> set (guild_roles g) \<and> rid \<notin> set UH \<and> rid \<in> set SH
      then [AddMemberRole (guild_id g) (user_snowflake u) rid add_reason] else [])"

text \<open>
  The condition under which a promotion is announced, in the words of the specification:
  the role's announce flag is set, the owning server record exists and has an announcement
  channel configured, and that channel exists on the guild as a text channel.
\<close>

definition announce_ready :: "env \<Rightarrow> role \<Rightarrow> guild \<Rightarrow> bool" where
  "announce_ready E r g =
     (announce r \<and>
      (case server_where_id E (role_server_id r) of
         Inl e \<Rightarrow> False
       | Inr None \<Rightarrow> False
       | Inr (Some server) \<Rightarrow>
           (case announcement_channel server of
              None \<Rightarrow> False
            | Some ch \<Rightarrow>
                ch \<noteq> [] \<and>
                (case find_first (\<lambda>c. channel_id c = ch) (guild_channels g) of
                   None \<Rightarrow> False
                 | Some c \<Rightarrow> is_text_channel c))))"

text \<open>The static data answers for the images of a role.\<close>

definition icons_answer :: "env \<Rightarrow> role \<Rightarrow> bool" where
  "icons_answer E r = (\<not> isl (championIcon E r) \<and> \<not> isl (championBg E r))"

text \<open>
  The world \<open>w'\<close> has the events of \<open>w\<close> and then more; a task only ever adds events;
  an error is reported among the events a run adds.
\<close>

definition grows :: "world \<Rightarrow> world \<Rightarrow> bool" where
  "grows w w' = (take (length (trace w)) (trace w') = trace w)"

definition growing :: "task \<Rightarrow> bool" where
  "growing t = (\<forall>s. grows (snd s) (snd (snd (t s))))"

definition reported :: "error \<Rightarrow> world \<Rightarrow> world \<Rightarrow> bool" where
  "reported e w w' = (ReportError e \<in> set (events_since w w'))"

section \<open>A concrete run\<close>

text \<open>
  One user with two linked accounts, in a guild whose server manages three roles. The
  first account holds champion 1 at level 3 with 100 points and is GOLD in solo queue;
  the second holds the same champion at level 5 with 50 points and is SILVER in solo
  queue and IRON in flex queue, and its summoner is no longer found. The member holds
  the roles A and B; the roles B and C pass their test, and C is announced.
\<close>

definition demo_account1 :: league_account where
  "demo_account1 = \<lparr>account_row_id = 1, account_user_id = 1, region = ''euw'',
     summoner_id = 1, account_id = 11, account_username = ''Alpha''\<rparr>"

definition demo_account2 :: league_account where
  "demo_account2 = \<lparr>account_row_id = 2, account_user_id = 1, region = ''na'',
     summoner_id = 2, account_id = 12, account_username = ''Beta''\<rparr>"

definition demo_stat1 :: user_champion_stat where
  "demo_stat1 = \<lparr>stat_row_id = 3, stat_user_id = 1, champion_id = 1,
     level = 3, score = 100, games_played = 7\<rparr>"

definition demo_stat2 :: user_champion_stat where
  "demo_stat2 = \<lparr>stat_row_id = 4, stat_user_id = 1, champion_id = 2,
     level = 1, score = 10, games_played = 2\<rparr>"

definition demo_rank :: user_rank where
  "demo_rank = \<lparr>rank_row_id = 5, rank_user_id = 1, queue = ''RANKED_TFT'',
     tier = Some ''DIAMOND''\<rparr>"

definition demo_user :: user where
  "demo_user = \<lparr>user_row_id = 1, user_snowflake = ''100'', username = ''Ori'',
     avatarURL = ''avatar.png'', accounts = None, stats = None, ranks = None\<rparr>"

definition demo_world :: world where
  "demo_world = \<lparr>db_users = [demo_user], db_accounts = [demo_account1, demo_account2],
     db_stats = [demo_stat1, demo_stat2], db_ranks = [demo_rank], next_id = 6, trace = []\<rparr>"

definition demo_role :: "nat \<Rightarrow> string \<Rightarrow> bool \<Rightarrow> role" where
  "demo_role i s a = \<lparr>role_row_id = i, role_snowflake = s, role_name = ''Role '' @ s,
     announce = a, role_server_id = 1\<rparr>"

definition demo_server :: server where
  "demo_server = \<lparr>server_row_id = 1, server_snowflake = ''500'', server_name = ''Guild'',
     announcement_channel = Some ''900'',
     roles = [demo_role 1 ''A'' False, demo_role 2 ''B'' False, demo_role 3 ''C'' True]\<rparr>"

definition demo_guild :: guild where
  "demo_guild = \<lparr>guild_id = ''500'', guild_name = ''Guild'',
     guild_members = [\<lparr>member_id = ''100'', member_roles = [''A'', ''B'']\<rparr>],
     guild_roles = [''A'', ''B'', ''C''],
     guild_channels = [\<lparr>channel_id = ''900'', is_text_channel = True\<rparr>]\<rparr>"

definition demo_env :: env where
  "demo_env = \<lparr>
     getSummonerById = (\<lambda>r i. if i = 1
        then Inr (Some \<lparr>summoner_name = ''Alpha'', summoner_riot_id = 1,
                         summoner_accountId = 11, summoner_profileIconId = 0\<rparr>)
        else Inr None),
     getChampionMastery = (\<lambda>r i. if i = 1
        then Inr [\<lparr>championPoints = 100, championId = 1, championLevel = 3\<rparr>]
        else Inr [\<lparr>championPoints = 50, championId = 1, championLevel = 5\<rparr>]),
     getLeaguePositions = (\<lambda>r i. if i = 1
        then Inr [\<lparr>queueType = ''RANKED_SOLO_5x5'', entry_tier = ''GOLD''\<rparr>]
        else Inr [\<lparr>queueType = ''RANKED_SOLO_5x5'', entry_tier = ''SILVER''\<rparr>,
                  \<lparr>queueType = ''RANKED_FLEX_SR'', entry_tier = ''IRON''\<rparr>]),
     findRankedGamesAfter = (\<lambda>r i t. Inr []),
     bot_guilds = [demo_guild],
     server_where_snowflake = (\<lambda>s. if s = ''500'' then Inr (Some demo_server) else Inr None),
     server_where_id = (\<lambda>i. if i = 1 then Inr (Some demo_server) else Inr None),
     test = (\<lambda>r u. role_snowflake r = ''B'' \<or> role_snowflake r = ''C''),
     findChampion = (\<lambda>r. None),
     getChampionIcon = (\<lambda>c. Inr ''icon.png''),
     getRandomCenteredSplash = (\<lambda>c. Inr ''splash.png''),
     render = (\<lambda>t a. Inr ''promotion.gif'')\<rparr>"

text \<open>The same collaborators with a server table that fails every lookup by snowflake.\<close>

definition demo_env_failing :: env where
  "demo_env_failing = demo_env\<lparr>server_where_snowflake := (\<lambda>s. Inl (Error ''no database''))\<rparr>"

text \<open>The same collaborators with a Riot API that fails every mastery call.\<close>

definition demo_env_no_mastery :: env where
  "demo_env_no_mastery = demo_env\<lparr>getChampionMastery := (\<lambda>r i. Inl (Error ''rate limit''))\<rparr>"

text \<open>
  The same collaborators in two guilds: the lookup of the server of the first guild
  fails, the second guild is the one above.
\<close>

definition demo_env_two_guilds :: env where
  "demo_env_two_guilds =
     demo_env\<lparr>bot_guilds := [demo_guild\<lparr>guild_id := ''400''\<rparr>, demo_guild],
       server_where_snowflake := (\<lambda>s. if s = ''500'' then Inr (Some demo_server)
                                        else Inl (Error ''no database''))\<rparr>"

text \<open>
  The user instance and the world a run has reached when the two sequential fetchers have
  returned, and when the two parallel ones have.
\<close>

definition state_after_games :: "env \<Rightarrow> user \<Rightarrow> world \<Rightarrow> state" where
  "state_after_games E u w =
     (case fetchAccounts E u w of (r, u1, w1) \<Rightarrow> snd (fetchGamesPlayed E u1 w1))"

definition state_after_fetch :: "env \<Rightarrow> user \<Rightarrow> world \<Rightarrow> state" where
  "state_after_fetch E u w =
     (case state_after_games E u w of
        (u2, w2) \<Rightarrow> (case fetchMasteryScores E u2 w2 of (r, u3, w3) \<Rightarrow> snd (fetchRanked E u3 w3)))"

section \<open>Properties of the containers\<close>

lemmas demo_defs = demo_env_def demo_user_def demo_world_def demo_account1_def demo_account2_def
  demo_stat1_def demo_stat2_def demo_rank_def demo_server_def demo_guild_def demo_role_def

lemma map_of_map_set: "map_of (map_set k v m) = (map_of m)(k \<mapsto> v)"
  by (induction m) (auto simp: fun_eq_iff)

lemma keys_map_set: "fst ` set (map_set k v m) = insert k (fst ` set m)"
  by (induction m) auto

lemma distinct_map_set: "distinct (map fst m) \<Longrightarrow> distinct (map fst (map_set k v m))"
proof (induction m)
  case Nil
  show ?case by simp
next
  case (Cons p m)
  have "fst ` set (map_set k v m) = insert k (fst ` set m)" by (rule keys_map_set)
  with Cons show ?case by auto
qed

lemma indexOf_ge: "- 1 \<le> indexOf xs x"
  by (induction xs) (auto simp: Let_def)

lemma indexOf_absent: "x \<notin> set xs \<Longrightarrow> indexOf xs x = - 1"
  by (induction xs) (auto simp: Let_def)

lemma indexOf_present:
  "x \<in> set xs \<Longrightarrow> 0 \<le> indexOf xs x \<and> nat (indexOf xs x) < length xs \<and> xs ! nat (indexOf xs x) = x"
proof (induction xs)
  case Nil
  then show ?case by simp
next
  case (Cons y ys)
  show ?case
  proof (cases "y = x")
    case True
    then show ?thesis by simp
  next
    case False
    with Cons.prems have "x \<in> set ys" by simp
    from Cons.IH [OF this] False show ?thesis
      by (simp add: Let_def nat_add_distrib)
  qed
qed

lemma tier_at_indexOf: "t \<in> set riot_tiers \<Longrightarrow> tier_at (indexOf riot_tiers t) = Some t"
  using indexOf_present [of t riot_tiers] by (simp add: tier_at_def)

section \<open>Properties of fetchRanked\<close>

lemma best_ge: "a \<le> best a ts"
proof (induction ts arbitrary: a)
  case Nil
  show ?case by simp
next
  case (Cons s ts)
  have "a \<le> (if a > indexOf riot_tiers s then a else indexOf riot_tiers s)" by simp
  also have "\<dots> \<le> best (if a > indexOf riot_tiers s then a else indexOf riot_tiers s) ts"
    by (rule Cons.IH)
  finally show ?case by simp
qed

lemma best_upper: "t \<in> set ts \<Longrightarrow> indexOf riot_tiers t \<le> best a ts"
proof (induction ts arbitrary: a)
  case Nil
  then show ?case by simp
next
  case (Cons s ts)
  show ?case
  proof (cases "t = s")
    case True
    have "indexOf riot_tiers s \<le> (if a > indexOf riot_tiers s then a else indexOf riot_tiers s)"
      by simp
    also have "\<dots> \<le> best (if a > indexOf riot_tiers s then a else indexOf riot_tiers s) ts"
      by (rule best_ge)
    finally show ?thesis using True by simp
  next
    case False
    with Cons.prems have "t \<in> set ts" by simp
    from Cons.IH [OF this] show ?thesis by simp
  qed
qed

lemma best_attained: "best a ts = a \<or> (\<exists>t\<in>set ts. best a ts = indexOf riot_tiers t)"
proof (induction ts arbitrary: a)
  case Nil
  show ?case by simp
next
  case (Cons s ts)
  from Cons.IH [of "if a > indexOf riot_tiers s then a else indexOf riot_tiers s"]
  show ?case by (auto split: if_splits)
qed

lemma best_highest:
  assumes "ts \<noteq> []" and "set ts \<subseteq> set riot_tiers"
  shows "\<exists>t\<in>set ts. best 0 ts = indexOf riot_tiers t \<and>
           (\<forall>t'\<in>set ts. indexOf riot_tiers t' \<le> indexOf riot_tiers t)"
proof -
  from best_attained [of 0 ts]
  have "\<exists>t\<in>set ts. best 0 ts = indexOf riot_tiers t"
  proof
    assume z: "best 0 ts = 0"
    from assms(1) obtain t where t: "t \<in> set ts" by (cases ts) auto
    with assms(2) have "0 \<le> indexOf riot_tiers t" using indexOf_present [of t riot_tiers] by auto
    moreover from best_upper [OF t, of 0] z have "indexOf riot_tiers t \<le> 0" by simp
    ultimately have "best 0 ts = indexOf riot_tiers t" using z by simp
    with t show ?thesis by blast
  next
    assume "\<exists>t\<in>set ts. best 0 ts = indexOf riot_tiers t"
    then show ?thesis .
  qed
  then obtain t where t: "t \<in> set ts" "best 0 ts = indexOf riot_tiers t" by blast
  have "\<forall>t'\<in>set ts. indexOf riot_tiers t' \<le> indexOf riot_tiers t"
    using best_upper [of _ ts 0] t(2) by simp
  with t show ?thesis by blast
qed

lemma ranked_result_other:
  "queueType r \<noteq> q \<Longrightarrow> map_of (ranked_result m r) q = map_of m q"
  by (simp add: ranked_result_def Let_def map_of_map_set)

lemma ranked_result_same:
  "map_of (ranked_result m r) (queueType r) =
     Some (best (case map_of m (queueType r) of None \<Rightarrow> 0 | Some v \<Rightarrow> v) [entry_tier r])"
  by (simp add: ranked_result_def Let_def map_of_map_set)

lemma foldl_ranked_result:
  "map_of (foldl ranked_result m rs) q =
     (if filter (\<lambda>r. queueType r = q) rs = [] then map_of m q
      else Some (best (case map_of m q of None \<Rightarrow> 0 | Some v \<Rightarrow> v)
                   (map entry_tier (filter (\<lambda>r. queueType r = q) rs))))"
proof (induction rs arbitrary: m)
  case Nil
  show ?case by simp
next
  case (Cons r rs)
  show ?case
  proof (cases "queueType r = q")
    case True
    then show ?thesis
      using Cons.IH [of "ranked_result m r"] ranked_result_same [of m r]
      by simp
  next
    case False
    then show ?thesis
      using Cons.IH [of "ranked_result m r"] by (simp add: ranked_result_other)
  qed
qed

lemma distinct_foldl_ranked_result:
  "distinct (map fst m) \<Longrightarrow> distinct (map fst (foldl ranked_result m rs))"
  by (induction rs arbitrary: m) (simp_all add: ranked_result_def Let_def distinct_map_set)

lemma ranked_accounts_results:
  "ranked_accounts E accs m = Inr m' \<Longrightarrow> m' = foldl ranked_result m (league_results E accs)"
proof (induction accs arbitrary: m)
  case Nil
  then show ?case by (simp add: league_results_def)
next
  case (Cons a accs)
  from Cons.prems obtain rs where rs: "getLeaguePositions E (region a) (summoner_id a) = Inr rs"
    by (cases "getLeaguePositions E (region a) (summoner_id a)") auto
  with Cons.prems have "ranked_accounts E accs (foldl ranked_result m rs) = Inr m'" by simp
  from Cons.IH [OF this] rs show ?case by (simp add: league_results_def)
qed


lemma map_of_filter_key:
  "distinct (map fst m) \<Longrightarrow>
     filter (\<lambda>p. fst p = q) m = (case map_of m q of None \<Rightarrow> [] | Some v \<Rightarrow> [(q, v)])"
proof (induction m)
  case Nil
  show ?case by simp
next
  case (Cons p m)
  show ?case
  proof (cases "fst p = q")
    case True
    with Cons.prems have "q \<notin> fst ` set m" by auto
    then have "filter (\<lambda>p. fst p = q) m = []" by (auto simp: filter_empty_conv)
    with True show ?thesis by (cases p) auto
  next
    case False
    with Cons show ?thesis by (cases p) auto
  qed
qed

lemma ranked_inserts_rows:
  "\<exists>rows. db_ranks (ranked_inserts u m w) = db_ranks w @ rows \<and>
          trace (ranked_inserts u m w) = trace w @ map InsertRank rows \<and>
          map (\<lambda>r. (queue r, tier r)) rows = map (\<lambda>p. (fst p, tier_at (snd p))) m \<and>
          (\<forall>r\<in>set rows. rank_user_id r = user_row_id u)"
proof (induction m arbitrary: w)
  case Nil
  show ?case by simp
next
  case (Cons p m)
  let ?w1 = "insert_rank u (fst p) (tier_at (snd p)) w"
  let ?r = "new_rank u (fst p) (tier_at (snd p)) w"
  from Cons.IH [of ?w1] obtain rows where
    rows: "db_ranks (ranked_inserts u m ?w1) = db_ranks ?w1 @ rows"
      "trace (ranked_inserts u m ?w1) = trace ?w1 @ map InsertRank rows"
      "map (\<lambda>r. (queue r, tier r)) rows = map (\<lambda>p. (fst p, tier_at (snd p))) m"
      "\<forall>r\<in>set rows. rank_user_id r = user_row_id u"
    by blast
  have "db_ranks (ranked_inserts u (p # m) w) = db_ranks w @ (?r # rows)"
    using rows(1) by (simp add: insert_rank_def)
  moreover have "trace (ranked_inserts u (p # m) w) = trace w @ map InsertRank (?r # rows)"
    using rows(2) by (simp add: insert_rank_def)
  moreover have "map (\<lambda>r. (queue r, tier r)) (?r # rows) =
      map (\<lambda>p. (fst p, tier_at (snd p))) (p # m)"
    using rows(3) by (simp add: new_rank_def)
  moreover have "\<forall>r\<in>set (?r # rows). rank_user_id r = user_row_id u"
    using rows(4) by (simp add: new_rank_def)
  ultimately show ?case by blast
qed

lemma filter_queue_rows:
  assumes "map (\<lambda>r. (queue r, tier r)) rows = map (\<lambda>p. (fst p, tier_at (snd p))) m"
    and "distinct (map fst m)"
  shows "map tier (filter (\<lambda>r. queue r = q) rows) =
           (case map_of m q of None \<Rightarrow> [] | Some v \<Rightarrow> [tier_at v])"
proof -
  have "map (\<lambda>r. (queue r, tier r)) (filter (\<lambda>r. queue r = q) rows) =
        filter (\<lambda>p. fst p = q) (map (\<lambda>r. (queue r, tier r)) rows)"
    by (simp add: filter_map comp_def)
  also have "\<dots> = map (\<lambda>p. (fst p, tier_at (snd p))) (filter (\<lambda>p. fst p = q) m)"
    by (simp add: assms(1) filter_map comp_def)
  also have "\<dots> = (case map_of m q of None \<Rightarrow> [] | Some v \<Rightarrow> [(q, tier_at v)])"
    by (simp add: map_of_filter_key [OF assms(2)] split: option.split)
  finally have "map snd (map (\<lambda>r. (queue r, tier r)) (filter (\<lambda>r. queue r = q) rows)) =
      map snd (case map_of m q of None \<Rightarrow> [] | Some v \<Rightarrow> [(q, tier_at v)])"
    by simp
  then show ?thesis by (simp add: comp_def split: option.splits)
qed

lemma fetchRanked_rows:
  assumes "fetchRanked E u w = (Inr (), u', w')"
  shows "\<exists>m. ranked_accounts E (loaded_accounts u w) [] = Inr m \<and>
           trace w' = trace w @ DeleteRanks (user_row_id u) # map InsertRank (related_ranks u w') \<and>
           map (\<lambda>r. (queue r, tier r)) (related_ranks u w') = map (\<lambda>p. (fst p, tier_at (snd p))) m"
proof -
  from assms obtain m where m: "ranked_accounts E (loaded_accounts u w) [] = Inr m"
    by (cases "ranked_accounts E (loaded_accounts u w) []") (auto simp: fetchRanked_def Let_def)
  let ?u1 = "u\<lparr>accounts := Some (loaded_accounts u w)\<rparr>"
  let ?w1 = "delete_ranks ?u1 w"
  from assms m have w': "w' = ranked_inserts ?u1 m ?w1"
    by (simp add: fetchRanked_def Let_def)
  from ranked_inserts_rows [of ?u1 m ?w1] obtain rows where
    rows: "db_ranks w' = db_ranks ?w1 @ rows"
      "trace w' = trace ?w1 @ map InsertRank rows"
      "map (\<lambda>r. (queue r, tier r)) rows = map (\<lambda>p. (fst p, tier_at (snd p))) m"
      "\<forall>r\<in>set rows. rank_user_id r = user_row_id ?u1"
    unfolding w' by blast
  have "filter (\<lambda>r. rank_user_id r = user_row_id u) rows = rows"
    using rows(4) by (simp add: filter_id_conv)
  then have rel: "related_ranks u w' = rows"
    by (simp add: related_ranks_def rows(1) delete_ranks_def)
  have "trace w' = trace w @ DeleteRanks (user_row_id u) # map InsertRank rows"
    by (simp add: rows(2) delete_ranks_def)
  with m rel rows(3) show ?thesis by simp
qed

text \<open>
  Claim C2. When \<^verbatim>\<open>fetchRanked\<close> has returned, the rank rows of the user are the rows
  it inserted after deleting the old ones (the events say so, in this order). For a queue
  that occurs in the answer for some account, and whose tiers there belong to the tier
  list, exactly one of these rows is for the queue, and its tier is one of the tiers seen
  for the queue that no other tier seen for it exceeds in the tier list. For a queue that
  occurs in no answer there is no row.
\<close>

theorem fetchRanked_highest_tier:
  assumes fin: "fetchRanked E u w = (Inr (), u', w')"
    and known: "set (observed_tiers E (loaded_accounts u w) q) \<subseteq> set riot_tiers"
  shows "(observed_tiers E (loaded_accounts u w) q \<noteq> [] \<longrightarrow>
            (\<exists>r t. filter (\<lambda>r. queue r = q) (related_ranks u w') = [r] \<and> tier r = Some t \<and>
               t \<in> set (observed_tiers E (loaded_accounts u w) q) \<and>
               (\<forall>t'\<in>set (observed_tiers E (loaded_accounts u w) q).
                  indexOf riot_tiers t' \<le> indexOf riot_tiers t))) \<and>
         (observed_tiers E (loaded_accounts u w) q = [] \<longrightarrow>
            filter (\<lambda>r. queue r = q) (related_ranks u w') = []) \<and>
         trace w' = trace w @ DeleteRanks (user_row_id u) # map InsertRank (related_ranks u w')"
proof -
  let ?obs = "observed_tiers E (loaded_accounts u w) q"
  from fetchRanked_rows [OF fin] obtain m where
    m: "ranked_accounts E (loaded_accounts u w) [] = Inr m"
    and tr: "trace w' = trace w @ DeleteRanks (user_row_id u) # map InsertRank (related_ranks u w')"
    and rows: "map (\<lambda>r. (queue r, tier r)) (related_ranks u w') =
                 map (\<lambda>p. (fst p, tier_at (snd p))) m"
    by blast
  from ranked_accounts_results [OF m]
  have m_eq: "m = foldl ranked_result [] (league_results E (loaded_accounts u w))" .
  have dist: "distinct (map fst m)"
    unfolding m_eq by (rule distinct_foldl_ranked_result) simp
  have look: "map_of m q = (if ?obs = [] then None else Some (best 0 ?obs))"
    unfolding m_eq by (simp add: foldl_ranked_result observed_tiers_def)
  have tiers: "map tier (filter (\<lambda>r. queue r = q) (related_ranks u w')) =
      (case map_of m q of None \<Rightarrow> [] | Some v \<Rightarrow> [tier_at v])"
    by (rule filter_queue_rows [OF rows dist])
  have absent: "?obs = [] \<longrightarrow> filter (\<lambda>r. queue r = q) (related_ranks u w') = []"
    using tiers look by auto
  have present: "?obs \<noteq> [] \<longrightarrow>
            (\<exists>r t. filter (\<lambda>r. queue r = q) (related_ranks u w') = [r] \<and> tier r = Some t \<and>
               t \<in> set ?obs \<and> (\<forall>t'\<in>set ?obs. indexOf riot_tiers t' \<le> indexOf riot_tiers t))"
  proof
    assume ne: "?obs \<noteq> []"
    from best_highest [OF ne known] obtain t where
      t: "t \<in> set ?obs" "best 0 ?obs = indexOf riot_tiers t"
        "\<forall>t'\<in>set ?obs. indexOf riot_tiers t' \<le> indexOf riot_tiers t"
      by blast
    from t(1) known have "tier_at (indexOf riot_tiers t) = Some t"
      by (auto intro: tier_at_indexOf)
    with tiers look ne t(2)
    have "map tier (filter (\<lambda>r. queue r = q) (related_ranks u w')) = [Some t]" by simp
    then obtain r where "filter (\<lambda>r. queue r = q) (related_ranks u w') = [r]" "tier r = Some t"
      by (auto simp: map_eq_Cons_conv)
    with t show "\<exists>r t. filter (\<lambda>r. queue r = q) (related_ranks u w') = [r] \<and> tier r = Some t \<and>
               t \<in> set ?obs \<and> (\<forall>t'\<in>set ?obs. indexOf riot_tiers t' \<le> indexOf riot_tiers t)"
      by blast
  qed
  from present absent tr show ?thesis by blast
qed

lemma demo_fetchRanked:
  "fst (fetchRanked demo_env demo_user demo_world) = Inr ()"
  by (simp add: fetchRanked_def demo_defs loaded_accounts_def related_accounts_def Let_def)

lemma demo_observed: "observed_tiers demo_env (loaded_accounts demo_user demo_world) ''RANKED_SOLO_5x5'' = [''GOLD'', ''SILVER'']"
  by (simp add: observed_tiers_def league_results_def demo_defs loaded_accounts_def related_accounts_def)

theorem fetchRanked_highest_tier_witness:
  "fst (fetchRanked demo_env demo_user demo_world) = Inr () \<and>
   set (observed_tiers demo_env (loaded_accounts demo_user demo_world) ''RANKED_SOLO_5x5'')
     \<subseteq> set riot_tiers \<and>
   (\<exists>r. filter (\<lambda>r. queue r = ''RANKED_SOLO_5x5'')
          (related_ranks demo_user (snd (snd (fetchRanked demo_env demo_user demo_world)))) = [r] \<and>
        tier r = Some ''GOLD'')"
proof -
  have run: "fetchRanked demo_env demo_user demo_world =
      (Inr (), fst (snd (fetchRanked demo_env demo_user demo_world)),
       snd (snd (fetchRanked demo_env demo_user demo_world)))"
    using demo_fetchRanked by (metis prod.collapse)
  have obs: "observed_tiers demo_env (loaded_accounts demo_user demo_world) ''RANKED_SOLO_5x5'' =
      [''GOLD'', ''SILVER'']"
    by (rule demo_observed)
  have known: "set (observed_tiers demo_env (loaded_accounts demo_user demo_world)
      ''RANKED_SOLO_5x5'') \<subseteq> set riot_tiers"
    by (simp add: obs riot_tiers_def)
  have idx: "indexOf riot_tiers ''GOLD'' = 3" "indexOf riot_tiers ''SILVER'' = 2"
    by (simp_all add: riot_tiers_def)
  from fetchRanked_highest_tier [OF run known]
  have "\<exists>r. filter (\<lambda>r. queue r = ''RANKED_SOLO_5x5'')
          (related_ranks demo_user (snd (snd (fetchRanked demo_env demo_user demo_world)))) = [r] \<and>
        tier r = Some ''GOLD''"
    unfolding obs using idx by auto
  with demo_fetchRanked known show ?thesis by blast
qed

section \<open>Properties of fetchMasteryScores\<close>

lemma find_first_filter:
  "find_first P xs = (case filter P xs of [] \<Rightarrow> None | x # ys \<Rightarrow> Some x)"
  by (induction xs) auto

lemma find_first_Some: "find_first P xs = Some x \<Longrightarrow> x \<in> set xs \<and> P x"
  by (induction xs) (auto split: if_splits)

lemma find_first_None: "find_first P xs = None \<Longrightarrow> filter P xs = []"
  by (induction xs) (auto split: if_splits)

lemma filter_key_single:
  assumes "distinct (map f xs)" and "x \<in> set xs"
  shows "filter (\<lambda>y. f y = f x) xs = [x]"
  using assms
proof (induction xs)
  case Nil
  then show ?case by simp
next
  case (Cons y ys)
  show ?case
  proof (cases "y = x")
    case True
    with Cons.prems have "f x \<notin> f ` set ys" by auto
    then have "\<forall>z\<in>set ys. f z \<noteq> f x" by (metis imageI)
    then have "filter (\<lambda>y. f y = f x) ys = []" by (simp add: filter_empty_conv)
    with True show ?thesis by simp
  next
    case False
    with Cons.prems have x: "x \<in> set ys" by simp
    with Cons.prems have "f y \<noteq> f x" by auto
    with Cons.IH x Cons.prems show ?thesis by simp
  qed
qed

subsection \<open>Snapshots of the statistics table\<close>

lemma snapshot_ok_init:
  assumes "stat_keys_ok w" and "set S \<subseteq> set (db_stats w)"
  shows "snapshot_ok S w"
proof -
  from assms(1) have d: "distinct (map stat_row_id (db_stats w))"
    and b: "\<forall>r\<in>set (db_stats w). stat_row_id r < next_id w"
    by (simp_all add: stat_keys_ok_def list_all_iff)
  from d have inj: "inj_on stat_row_id (set (db_stats w))" by (simp add: distinct_map)
  have "\<forall>r\<in>set (db_stats w). \<forall>s\<in>set S. stat_row_id r = stat_row_id s \<longrightarrow> r = s"
    using inj assms(2) by (auto dest: inj_onD)
  moreover have "\<forall>s\<in>set S. stat_row_id s < next_id w" using b assms(2) by auto
  ultimately show ?thesis by (simp add: snapshot_ok_def list_all_iff)
qed

lemma snapshot_ok_delete: "snapshot_ok S w \<Longrightarrow> snapshot_ok S (delete_stat old w)"
  by (simp add: snapshot_ok_def delete_stat_def list_all_iff)

lemma snapshot_ok_insert: "snapshot_ok S w \<Longrightarrow> snapshot_ok S (insert_stat u c l s g w)"
  by (auto simp: snapshot_ok_def insert_stat_def new_stat_def list_all_iff)

lemma snapshot_ok_mastery_write: "snapshot_ok S w \<Longrightarrow> snapshot_ok S (mastery_write u st p w)"
  by (simp add: mastery_write_def snapshot_ok_delete snapshot_ok_insert split: option.split)

lemma delete_stat_other:
  assumes "snapshot_ok S w" and "old \<in> set S" and "champion_id old \<noteq> c"
  shows "filter (\<lambda>r. champion_id r = c) (db_stats (delete_stat old w)) =
         filter (\<lambda>r. champion_id r = c) (db_stats w)"
proof -
  have "\<forall>r\<in>set (db_stats w). champion_id r = c \<longrightarrow> stat_row_id r \<noteq> stat_row_id old"
    using assms by (auto simp: snapshot_ok_def list_all_iff)
  then have "filter (\<lambda>r. champion_id r = c) (filter (\<lambda>r. stat_row_id r \<noteq> stat_row_id old) (db_stats w)) =
        filter (\<lambda>r. champion_id r = c) (db_stats w)"
    by (auto intro: filter_cong)
  then show ?thesis by (simp add: delete_stat_def)
qed

lemma insert_stat_other:
  "c' \<noteq> c \<Longrightarrow> filter (\<lambda>r. champion_id r = c) (db_stats (insert_stat u c' l s g w)) =
         filter (\<lambda>r. champion_id r = c) (db_stats w)"
  by (simp add: insert_stat_def new_stat_def)

lemma mastery_write_other:
  assumes "snapshot_ok S w" and "fst p \<noteq> c"
  shows "filter (\<lambda>r. champion_id r = c) (db_stats (mastery_write u S p w)) =
         filter (\<lambda>r. champion_id r = c) (db_stats w)"
proof (cases "find_first (\<lambda>x. champion_id x = fst p) S")
  case None
  then show ?thesis using assms(2) by (simp add: mastery_write_def insert_stat_other)
next
  case (Some old)
  from find_first_Some [OF Some] have old: "old \<in> set S" "champion_id old = fst p" by simp_all
  with assms(2) have "champion_id old \<noteq> c" by simp
  from delete_stat_other [OF assms(1) old(1) this] Some assms(2)
  show ?thesis by (simp add: mastery_write_def insert_stat_other)
qed

lemma mastery_writes_snapshot_ok:
  "snapshot_ok S w \<Longrightarrow> snapshot_ok S (mastery_writes u S ps w)"
  by (induction ps arbitrary: w) (simp_all add: snapshot_ok_mastery_write)

lemma mastery_writes_other:
  "snapshot_ok S w \<Longrightarrow> c \<notin> fst ` set ps \<Longrightarrow>
     filter (\<lambda>r. champion_id r = c) (db_stats (mastery_writes u S ps w)) =
     filter (\<lambda>r. champion_id r = c) (db_stats w)"
proof (induction ps arbitrary: w)
  case Nil
  show ?case by simp
next
  case (Cons p ps)
  from Cons.prems have ne: "fst p \<noteq> c" and rest: "c \<notin> fst ` set ps" by auto
  have ok: "snapshot_ok S (mastery_write u S p w)"
    using Cons.prems(1) by (rule snapshot_ok_mastery_write)
  from Cons.IH [OF ok rest] mastery_write_other [OF Cons.prems(1) ne]
  show ?case by simp
qed

lemma user_champion_rows_alt:
  "user_champion_rows u c w =
     filter (\<lambda>r. stat_user_id r = user_row_id u) (filter (\<lambda>r. champion_id r = c) (db_stats w))"
  by (auto simp: user_champion_rows_def related_stats_def intro: filter_cong)


lemma mastery_write_same:
  assumes ok: "snapshot_ok S w"
    and dist: "distinct (map champion_id S)"
    and own: "\<forall>s\<in>set S. stat_user_id s = user_row_id u"
    and rows: "user_champion_rows u c w = filter (\<lambda>r. champion_id r = c) S"
  shows "\<exists>r. user_champion_rows u c (mastery_write u S (c, sc, lv) w) = [r] \<and>
            score r = sc \<and> level r = lv \<and> games_played r = carried_games S c"
proof (cases "find_first (\<lambda>x. champion_id x = c) S")
  case None
  from find_first_None [OF None] rows have "user_champion_rows u c w = []" by simp
  then have "user_champion_rows u c (mastery_write u S (c, sc, lv) w) = [new_stat u c lv sc 0 w]"
    using None
    by (simp add: mastery_write_def user_champion_rows_def related_stats_def insert_stat_def
        new_stat_def)
  with None show ?thesis by (simp add: new_stat_def carried_games_def)
next
  case (Some old)
  from find_first_Some [OF Some] have old: "old \<in> set S" "champion_id old = c" by simp_all
  from filter_key_single [OF dist old(1)] old(2)
  have single: "filter (\<lambda>r. champion_id r = c) S = [old]" by simp
  with rows have cur: "user_champion_rows u c w = [old]" by simp
  show ?thesis
  proof (cases "lv = level old \<and> sc = score old")
    case True
    with Some cur show ?thesis by (simp add: mastery_write_def carried_games_def)
  next
    case False
    let ?w1 = "delete_stat old w"
    have "user_champion_rows u c ?w1 =
        filter (\<lambda>r. stat_row_id r \<noteq> stat_row_id old) (user_champion_rows u c w)"
      by (auto simp: user_champion_rows_def related_stats_def delete_stat_def intro: filter_cong)
    with cur have gone: "user_champion_rows u c ?w1 = []" by simp
    have "user_champion_rows u c (insert_stat u c lv sc (games_played old) ?w1) =
        user_champion_rows u c ?w1 @ [new_stat u c lv sc (games_played old) ?w1]"
      by (simp add: user_champion_rows_def related_stats_def insert_stat_def new_stat_def)
    with gone False Some
    have "user_champion_rows u c (mastery_write u S (c, sc, lv) w) =
        [new_stat u c lv sc (games_played old) ?w1]"
      by (auto simp: mastery_write_def)
    with Some show ?thesis by (simp add: new_stat_def carried_games_def)
  qed
qed

lemma mastery_writes_same:
  assumes "snapshot_ok S w"
    and "distinct (map fst ps)"
    and "distinct (map champion_id S)"
    and "\<forall>s\<in>set S. stat_user_id s = user_row_id u"
    and "(c, sc, lv) \<in> set ps"
    and "user_champion_rows u c w = filter (\<lambda>r. champion_id r = c) S"
  shows "\<exists>r. user_champion_rows u c (mastery_writes u S ps w) = [r] \<and>
            score r = sc \<and> level r = lv \<and> games_played r = carried_games S c"
  using assms(1,2,5,6)
proof (induction ps arbitrary: w)
  case Nil
  then show ?case by simp
next
  case (Cons p ps)
  have ok1: "snapshot_ok S (mastery_write u S p w)"
    using Cons.prems(1) by (rule snapshot_ok_mastery_write)
  show ?case
  proof (cases "fst p = c")
    case True
    with Cons.prems(2) have notin: "c \<notin> fst ` set ps" by auto
    with Cons.prems(3) have p: "p = (c, sc, lv)" by (auto simp: image_iff)
    from mastery_write_same [OF Cons.prems(1) assms(3) assms(4) Cons.prems(4), of sc lv]
    obtain r where r: "user_champion_rows u c (mastery_write u S (c, sc, lv) w) = [r]"
      "score r = sc" "level r = lv" "games_played r = carried_games S c"
      by blast
    from mastery_writes_other [OF ok1 notin, of u]
    have "user_champion_rows u c (mastery_writes u S ps (mastery_write u S p w)) =
        user_champion_rows u c (mastery_write u S p w)"
      by (simp add: user_champion_rows_alt)
    with r p show ?thesis by simp
  next
    case False
    with Cons.prems(3) have mem: "(c, sc, lv) \<in> set ps" by auto
    from mastery_write_other [OF Cons.prems(1) False, of u]
    have "user_champion_rows u c (mastery_write u S p w) = user_champion_rows u c w"
      by (simp add: user_champion_rows_alt)
    with Cons.prems(4)
    have rows1: "user_champion_rows u c (mastery_write u S p w) =
        filter (\<lambda>r. champion_id r = c) S" by simp
    from Cons.prems(2) have d: "distinct (map fst ps)" by simp
    from Cons.IH [OF ok1 d mem rows1] show ?thesis by simp
  qed
qed

lemma mastery_writes_skip:
  "\<forall>p\<in>set ps. \<exists>r. find_first (\<lambda>x. champion_id x = fst p) S = Some r \<and>
       level r = snd (snd p) \<and> score r = fst (snd p) \<Longrightarrow>
   mastery_writes u S ps w = w"
proof (induction ps)
  case Nil
  show ?case by simp
next
  case (Cons p ps)
  then obtain r where "find_first (\<lambda>x. champion_id x = fst p) S = Some r"
    "level r = snd (snd p)" "score r = fst (snd p)" by auto
  then have "mastery_write u S p w = w" by (simp add: mastery_write_def)
  with Cons show ?case by simp
qed

subsection \<open>The merged scores\<close>

lemma mastery_entry_other:
  "championId e \<noteq> c \<Longrightarrow> map_of (mastery_entry m e) c = map_of m c"
  by (simp add: mastery_entry_def Let_def map_of_map_set)

lemma mastery_entry_same:
  "map_of (mastery_entry m e) (championId e) =
     Some (fst (case map_of m (championId e) of None \<Rightarrow> (0, 0) | Some v \<Rightarrow> v) + championPoints e,
           highest (snd (case map_of m (championId e) of None \<Rightarrow> (0, 0) | Some v \<Rightarrow> v))
             [championLevel e])"
  by (simp add: mastery_entry_def Let_def map_of_map_set)

lemma foldl_mastery_entry:
  "map_of (foldl mastery_entry m es) c =
     (if filter (\<lambda>e. championId e = c) es = [] then map_of m c
      else Some (fst (case map_of m c of None \<Rightarrow> (0, 0) | Some v \<Rightarrow> v) +
                   sum_list (map championPoints (filter (\<lambda>e. championId e = c) es)),
                 highest (snd (case map_of m c of None \<Rightarrow> (0, 0) | Some v \<Rightarrow> v))
                   (map championLevel (filter (\<lambda>e. championId e = c) es))))"
proof (induction es arbitrary: m)
  case Nil
  show ?case by simp
next
  case (Cons e es)
  show ?case
  proof (cases "championId e = c")
    case True
    then show ?thesis
      using Cons.IH [of "mastery_entry m e"] mastery_entry_same [of m e]
      by (simp add: add.assoc)
  next
    case False
    then show ?thesis
      using Cons.IH [of "mastery_entry m e"] by (simp add: mastery_entry_other)
  qed
qed

lemma distinct_foldl_mastery_entry:
  "distinct (map fst m) \<Longrightarrow> distinct (map fst (foldl mastery_entry m es))"
  by (induction es arbitrary: m) (simp_all add: mastery_entry_def Let_def distinct_map_set)

lemma mastery_accounts_results:
  "mastery_accounts E accs m = Inr m' \<Longrightarrow> m' = foldl mastery_entry m (mastery_results E accs)"
proof (induction accs arbitrary: m)
  case Nil
  then show ?case by (simp add: mastery_results_def)
next
  case (Cons a accs)
  from Cons.prems obtain ms where ms: "getChampionMastery E (region a) (summoner_id a) = Inr ms"
    by (cases "getChampionMastery E (region a) (summoner_id a)") auto
  with Cons.prems have "mastery_accounts E accs (foldl mastery_entry m ms) = Inr m'" by simp
  from Cons.IH [OF this] ms show ?case by (simp add: mastery_results_def)
qed

lemma highest_Max: "highest a ls = Max (insert a (set ls))"
proof (induction ls arbitrary: a)
  case Nil
  show ?case by simp
next
  case (Cons l ls)
  have "Max (insert (if a > l then a else l) (set ls)) = Max (insert a (insert l (set ls)))"
    by (cases "set ls = {}") (auto simp: max_def)
  with Cons show ?case by simp
qed

lemma highest_nonneg:
  assumes "ls \<noteq> []" and "\<forall>l\<in>set ls. 0 \<le> l"
  shows "highest 0 ls = Max (set ls)"
proof -
  from assms(1) obtain l where l: "l \<in> set ls" by (cases ls) auto
  with assms(2) have "0 \<le> l" by simp
  also from l have "l \<le> Max (set ls)" by simp
  finally have "max 0 (Max (set ls)) = Max (set ls)" by simp
  moreover from l have "set ls \<noteq> {}" by auto
  ultimately show ?thesis by (simp add: highest_Max)
qed


subsection \<open>The function\<close>

lemma loaded_stats_in_step: "stats_in_step u w \<Longrightarrow> loaded_stats u w = related_stats u w"
  by (auto simp: stats_in_step_def loaded_stats_def)

lemma insert_stat_user:
  "insert_stat (u\<lparr>accounts := a, stats := b\<rparr>) c l s g v = insert_stat u c l s g v"
  by (simp add: insert_stat_def new_stat_def)

lemma mastery_write_user:
  "mastery_write (u\<lparr>accounts := a, stats := b\<rparr>) S p v = mastery_write u S p v"
  by (simp add: mastery_write_def insert_stat_user split: option.split)

lemma mastery_writes_user:
  "mastery_writes (u\<lparr>accounts := a, stats := b\<rparr>) S ps v = mastery_writes u S ps v"
  by (induction ps arbitrary: v) (simp_all add: mastery_write_user)

lemma fetchMasteryScores_done:
  assumes "fetchMasteryScores E u w = (Inr (), u', w')"
  shows "\<exists>scores. mastery_accounts E (loaded_accounts u w) [] = Inr scores \<and>
           w' = mastery_writes u (loaded_stats u w) scores w \<and>
           u' = u\<lparr>accounts := Some (loaded_accounts u w), stats := Some (related_stats u w')\<rparr>"
proof -
  from assms obtain scores where sc: "mastery_accounts E (loaded_accounts u w) [] = Inr scores"
    by (cases "mastery_accounts E (loaded_accounts u w) []")
       (auto simp: fetchMasteryScores_def Let_def)
  from assms sc show ?thesis
    by (auto simp: fetchMasteryScores_def Let_def mastery_writes_user related_stats_def)
qed

lemma mastery_scores_rows:
  assumes fin: "fetchMasteryScores E u w = (Inr (), u', w')"
    and step: "stats_in_step u w"
    and keys: "stat_keys_ok w"
    and one: "distinct (map champion_id (related_stats u w))"
    and seen: "champion_entries E (loaded_accounts u w) c \<noteq> []"
  shows "\<exists>r. user_champion_rows u c w' = [r] \<and>
           score r = sum_list (map championPoints (champion_entries E (loaded_accounts u w) c)) \<and>
           level r = highest 0 (map championLevel (champion_entries E (loaded_accounts u w) c)) \<and>
           games_played r = carried_games (related_stats u w) c"
proof -
  let ?S = "related_stats u w"
  let ?es = "champion_entries E (loaded_accounts u w) c"
  from fetchMasteryScores_done [OF fin] obtain scores where
    sc: "mastery_accounts E (loaded_accounts u w) [] = Inr scores"
    and w': "w' = mastery_writes u (loaded_stats u w) scores w"
    by blast
  from loaded_stats_in_step [OF step] w' have w'': "w' = mastery_writes u ?S scores w" by simp
  from mastery_accounts_results [OF sc]
  have sc_eq: "scores = foldl mastery_entry [] (mastery_results E (loaded_accounts u w))" .
  have dist: "distinct (map fst scores)"
    unfolding sc_eq by (rule distinct_foldl_mastery_entry) simp
  have "map_of scores c =
      Some (sum_list (map championPoints ?es), highest 0 (map championLevel ?es))"
    using seen unfolding sc_eq by (simp add: foldl_mastery_entry champion_entries_def)
  then have mem: "(c, sum_list (map championPoints ?es), highest 0 (map championLevel ?es))
      \<in> set scores"
    by (rule map_of_SomeD)
  have ok: "snapshot_ok ?S w"
    by (rule snapshot_ok_init [OF keys]) (auto simp: related_stats_def)
  have own: "\<forall>s\<in>set ?S. stat_user_id s = user_row_id u"
    by (simp add: related_stats_def)
  have rows: "user_champion_rows u c w = filter (\<lambda>r. champion_id r = c) ?S"
    by (simp add: user_champion_rows_def)
  from mastery_writes_same [OF ok dist one own mem rows] w''
  show ?thesis by simp
qed

lemmas mastery_eval = fetchMasteryScores_def loaded_accounts_def loaded_stats_def
  related_accounts_def related_stats_def mastery_entry_def mastery_write_def insert_stat_def
  delete_stat_def new_stat_def Let_def

lemma demo_fetchMasteryScores:
  "fst (fetchMasteryScores demo_env demo_user demo_world) = Inr ()"
  by (simp add: mastery_eval demo_defs)

lemma demo_mastery_run:
  "fetchMasteryScores demo_env demo_user demo_world =
     (Inr (), fst (snd (fetchMasteryScores demo_env demo_user demo_world)),
      snd (snd (fetchMasteryScores demo_env demo_user demo_world)))"
  using demo_fetchMasteryScores by (metis prod.collapse)

lemma demo_stats_in_step: "stats_in_step demo_user demo_world"
  by (simp add: stats_in_step_def demo_defs)

lemma demo_stat_keys_ok: "stat_keys_ok demo_world"
  by (simp add: stat_keys_ok_def demo_defs)

lemma demo_one_row: "distinct (map champion_id (related_stats demo_user demo_world))"
  by (simp add: related_stats_def demo_defs)

lemma demo_entries1:
  "champion_entries demo_env (loaded_accounts demo_user demo_world) 1 =
     [\<lparr>championPoints = 100, championId = 1, championLevel = 3\<rparr>,
      \<lparr>championPoints = 50, championId = 1, championLevel = 5\<rparr>]"
  by (simp add: champion_entries_def mastery_results_def loaded_accounts_def
      related_accounts_def demo_defs)

lemma demo_entries2:
  "champion_entries demo_env (loaded_accounts demo_user demo_world) 2 = []"
  by (simp add: champion_entries_def mastery_results_def loaded_accounts_def
      related_accounts_def demo_defs)

text \<open>
  Claim C3. \<^verbatim>\<open>fetchMasteryScores\<close> starts from a user whose statistics relation is in
  step with the table, a table with sound keys and at most one row per champion of the
  user. When it has returned, a champion that occurs in the mastery list of some account,
  with levels that are not negative, has exactly one row of the user: its score is the
  sum of the champion's points over all entries of all accounts, its level is the greatest
  level among them, and its games played are those of the champion's row before the call
  (0 when there was none), whether the row was replaced or kept. The user instance holds
  the reloaded rows.
\<close>

theorem fetchMasteryScores_sum_max:
  assumes fin: "fetchMasteryScores E u w = (Inr (), u', w')"
    and step: "stats_in_step u w"
    and keys: "stat_keys_ok w"
    and one: "distinct (map champion_id (related_stats u w))"
    and seen: "champion_entries E (loaded_accounts u w) c \<noteq> []"
    and levels: "list_all (\<lambda>m. 0 \<le> championLevel m) (champion_entries E (loaded_accounts u w) c)"
  shows "\<exists>r. user_champion_rows u c w' = [r] \<and>
           score r = sum_list (map championPoints (champion_entries E (loaded_accounts u w) c)) \<and>
           level r = Max (set (map championLevel (champion_entries E (loaded_accounts u w) c))) \<and>
           games_played r =
             (case find_first (\<lambda>x. champion_id x = c) (related_stats u w) of
                None \<Rightarrow> 0 | Some old \<Rightarrow> games_played old) \<and>
           stats u' = Some (related_stats u w')"
proof -
  let ?es = "champion_entries E (loaded_accounts u w) c"
  from seen have ne: "map championLevel ?es \<noteq> []" by simp
  from levels have "\<forall>l\<in>set (map championLevel ?es). 0 \<le> l" by (auto simp: list_all_iff)
  from highest_nonneg [OF ne this]
  have hi: "highest 0 (map championLevel ?es) = Max (set (map championLevel ?es))" .
  from fetchMasteryScores_done [OF fin] have "stats u' = Some (related_stats u w')" by auto
  with mastery_scores_rows [OF fin step keys one seen] hi
  show ?thesis by (simp add: carried_games_def)
qed

theorem fetchMasteryScores_sum_max_witness:
  "fst (fetchMasteryScores demo_env demo_user demo_world) = Inr () \<and>
   stats_in_step demo_user demo_world \<and> stat_keys_ok demo_world \<and>
   distinct (map champion_id (related_stats demo_user demo_world)) \<and>
   champion_entries demo_env (loaded_accounts demo_user demo_world) 1 \<noteq> [] \<and>
   list_all (\<lambda>m. 0 \<le> championLevel m)
     (champion_entries demo_env (loaded_accounts demo_user demo_world) 1) \<and>
   (\<exists>r. user_champion_rows demo_user 1
           (snd (snd (fetchMasteryScores demo_env demo_user demo_world))) = [r] \<and>
        score r = 150 \<and> level r = 5 \<and> games_played r = 7)"
proof -
  have seen: "champion_entries demo_env (loaded_accounts demo_user demo_world) 1 \<noteq> []"
    by (simp add: demo_entries1)
  have levels: "list_all (\<lambda>m. 0 \<le> championLevel m)
      (champion_entries demo_env (loaded_accounts demo_user demo_world) 1)"
    by (simp add: demo_entries1)
  have old: "find_first (\<lambda>x. champion_id x = 1) (related_stats demo_user demo_world) =
      Some demo_stat1"
    by (simp add: related_stats_def demo_defs)
  from fetchMasteryScores_sum_max [OF demo_mastery_run demo_stats_in_step demo_stat_keys_ok
      demo_one_row seen levels]
  have "\<exists>r. user_champion_rows demo_user 1
           (snd (snd (fetchMasteryScores demo_env demo_user demo_world))) = [r] \<and>
        score r = 150 \<and> level r = 5 \<and> games_played r = 7"
    unfolding demo_entries1 old by (auto simp: demo_stat1_def)
  with demo_fetchMasteryScores demo_stats_in_step demo_stat_keys_ok demo_one_row seen levels
  show ?thesis by blast
qed

text \<open>
  Claim C5. From the same starting state, a second call of \<^verbatim>\<open>fetchMasteryScores\<close>
  right after a first one that returned, with the same answers of the Riot API, returns
  and leaves the world as it is: no row is deleted or inserted and no event is added.
\<close>

theorem fetchMasteryScores_idempotent:
  assumes fin: "fetchMasteryScores E u w = (Inr (), u1, w1)"
    and step: "stats_in_step u w"
    and keys: "stat_keys_ok w"
    and one: "distinct (map champion_id (related_stats u w))"
  shows "fetchMasteryScores E u1 w1 = (Inr (), u1, w1)"
proof -
  from fetchMasteryScores_done [OF fin] obtain scores where
    sc: "mastery_accounts E (loaded_accounts u w) [] = Inr scores"
    and u1: "u1 = u\<lparr>accounts := Some (loaded_accounts u w), stats := Some (related_stats u w1)\<rparr>"
    by blast
  from mastery_accounts_results [OF sc]
  have sc_eq: "scores = foldl mastery_entry [] (mastery_results E (loaded_accounts u w))" .
  have acc1: "loaded_accounts u1 w1 = loaded_accounts u w"
    by (simp add: u1 loaded_accounts_def)
  have rel1: "related_stats u1 w1 = related_stats u w1"
    by (simp add: u1 related_stats_def)
  have st1: "loaded_stats u1 w1 = related_stats u w1"
    by (simp add: u1 loaded_stats_def)
  have skip: "\<forall>p\<in>set scores. \<exists>r. find_first (\<lambda>x. champion_id x = fst p) (related_stats u w1) = Some r \<and>
       level r = snd (snd p) \<and> score r = fst (snd p)"
  proof
    fix p assume p: "p \<in> set scores"
    obtain c sc' lv where pc: "p = (c, sc', lv)" by (cases p) auto
    have dist: "distinct (map fst scores)"
      unfolding sc_eq by (rule distinct_foldl_mastery_entry) simp
    from p pc dist have look: "map_of scores c = Some (sc', lv)" by simp
    have seen: "champion_entries E (loaded_accounts u w) c \<noteq> []"
    proof
      assume "champion_entries E (loaded_accounts u w) c = []"
      then have "map_of scores c = None"
        unfolding sc_eq by (simp add: foldl_mastery_entry champion_entries_def)
      with look show False by simp
    qed
    from look seen have vals:
      "sc' = sum_list (map championPoints (champion_entries E (loaded_accounts u w) c))"
      "lv = highest 0 (map championLevel (champion_entries E (loaded_accounts u w) c))"
      unfolding sc_eq by (simp_all add: foldl_mastery_entry champion_entries_def)
    from mastery_scores_rows [OF fin step keys one seen] obtain r where
      r: "user_champion_rows u c w1 = [r]" "score r = sc'" "level r = lv"
      using vals by auto
    from r(1) have "find_first (\<lambda>x. champion_id x = c) (related_stats u w1) = Some r"
      by (simp add: find_first_filter user_champion_rows_def)
    with r pc show "\<exists>r. find_first (\<lambda>x. champion_id x = fst p) (related_stats u w1) = Some r \<and>
       level r = snd (snd p) \<and> score r = fst (snd p)" by simp
  qed
  have noop: "\<And>x. mastery_writes x (related_stats u w1) scores w1 = w1"
    by (rule mastery_writes_skip [OF skip])
  have "u1\<lparr>accounts := Some (loaded_accounts u w), stats := Some (related_stats u w1)\<rparr> = u1"
    "u1\<lparr>stats := Some (related_stats u w1)\<rparr> = u1"
    by (simp_all add: u1)
  then show ?thesis
    by (simp add: fetchMasteryScores_def Let_def acc1 st1 sc noop rel1)
qed

theorem fetchMasteryScores_idempotent_witness:
  "fst (fetchMasteryScores demo_env demo_user demo_world) = Inr () \<and>
   stats_in_step demo_user demo_world \<and> stat_keys_ok demo_world \<and>
   distinct (map champion_id (related_stats demo_user demo_world)) \<and>
   fetchMasteryScores demo_env
     (fst (snd (fetchMasteryScores demo_env demo_user demo_world)))
     (snd (snd (fetchMasteryScores demo_env demo_user demo_world))) =
   (Inr (), fst (snd (fetchMasteryScores demo_env demo_user demo_world)),
    snd (snd (fetchMasteryScores demo_env demo_user demo_world)))"
  using fetchMasteryScores_idempotent [OF demo_mastery_run demo_stats_in_step demo_stat_keys_ok
      demo_one_row]
    demo_fetchMasteryScores demo_stats_in_step demo_stat_keys_ok demo_one_row
  by blast

text \<open>
  Claim C9. The rows of the user for a champion that occurs in no mastery list of any
  account are the same after \<^verbatim>\<open>fetchMasteryScores\<close> as before.
\<close>

theorem fetchMasteryScores_frame:
  assumes fin: "fetchMasteryScores E u w = (Inr (), u', w')"
    and step: "stats_in_step u w"
    and keys: "stat_keys_ok w"
    and absent: "champion_entries E (loaded_accounts u w) c = []"
  shows "user_champion_rows u c w' = user_champion_rows u c w"
proof -
  from fetchMasteryScores_done [OF fin] obtain scores where
    sc: "mastery_accounts E (loaded_accounts u w) [] = Inr scores"
    and w': "w' = mastery_writes u (loaded_stats u w) scores w"
    by blast
  from mastery_accounts_results [OF sc]
  have sc_eq: "scores = foldl mastery_entry [] (mastery_results E (loaded_accounts u w))" .
  have "map_of scores c = None"
    using absent unfolding sc_eq by (simp add: foldl_mastery_entry champion_entries_def)
  then have notin: "c \<notin> fst ` set scores" by (simp add: map_of_eq_None_iff)
  have ok: "snapshot_ok (loaded_stats u w) w"
    unfolding loaded_stats_in_step [OF step]
    by (rule snapshot_ok_init [OF keys]) (auto simp: related_stats_def)
  from mastery_writes_other [OF ok notin, of u] w'
  show ?thesis by (simp add: user_champion_rows_alt)
qed

theorem fetchMasteryScores_frame_witness:
  "fst (fetchMasteryScores demo_env demo_user demo_world) = Inr () \<and>
   stats_in_step demo_user demo_world \<and> stat_keys_ok demo_world \<and>
   champion_entries demo_env (loaded_accounts demo_user demo_world) 2 = [] \<and>
   user_champion_rows demo_user 2 demo_world = [demo_stat2] \<and>
   user_champion_rows demo_user 2
     (snd (snd (fetchMasteryScores demo_env demo_user demo_world))) = [demo_stat2]"
proof -
  have before: "user_champion_rows demo_user 2 demo_world = [demo_stat2]"
    by (simp add: user_champion_rows_def related_stats_def demo_defs)
  from fetchMasteryScores_frame [OF demo_mastery_run demo_stats_in_step demo_stat_keys_ok
      demo_entries2] before
  have "user_champion_rows demo_user 2
     (snd (snd (fetchMasteryScores demo_env demo_user demo_world))) = [demo_stat2]"
    by simp
  with demo_fetchMasteryScores demo_stats_in_step demo_stat_keys_ok demo_entries2 before
  show ?thesis by blast
qed

section \<open>Properties of the role update\<close>

lemma set_new_Set: "set (new_Set xs) = set xs"
  by (induction xs) auto

lemma distinct_new_Set: "distinct (new_Set xs)"
  by (induction xs) (auto simp: set_new_Set)

lemma events_since_append: "trace w' = trace w @ evs \<Longrightarrow> events_since w w' = evs"
  by (simp add: events_since_def)

lemma promotion_message_trace:
  "\<exists>evs. trace (snd (promotion_message E u r c w)) = trace w @ evs \<and>
         list_all (\<lambda>e. is_render e \<or> is_create_message e) evs"
  by (simp add: promotion_message_def split: sum.split)

lemma announcePromotion_trace:
  "\<exists>evs. trace (snd (announcePromotion E u r g w)) = trace w @ evs \<and>
         list_all (\<lambda>e. is_render e \<or> is_create_message e) evs"
  using promotion_message_trace [of E u r _ w]
  by (simp add: announcePromotion_def split: sum.split option.split)

lemma announcePromotion_noop:
  assumes "server_where_id E (role_server_id r) = Inr so" and "\<not> announce_ready E r g"
  shows "announcePromotion E u r g w = (Inr (), w)"
  using assms
  by (auto simp: announcePromotion_def announce_ready_def split: option.splits)

lemma promotion_message_render:
  assumes "icons_answer E r"
  shows "\<exists>args rest. trace (snd (promotion_message E u r c w)) =
           trace w @ Render promotion_template args # rest \<and>
           (list_ex is_create_message rest \<longleftrightarrow> \<not> isl (render E promotion_template args))"
proof -
  from assms obtain icon bg where i: "championIcon E r = Inr icon" "championBg E r = Inr bg"
    by (cases "championIcon E r"; cases "championBg E r") (auto simp: icons_answer_def)
  show ?thesis
  proof (cases "render E promotion_template (promotion_args u r icon bg)")
    case (Inl e)
    with i have "trace (snd (promotion_message E u r c w)) =
        trace w @ Render promotion_template (promotion_args u r icon bg) # []"
      by (simp add: promotion_message_def)
    with Inl show ?thesis by force
  next
    case (Inr f)
    with i have "trace (snd (promotion_message E u r c w)) =
        trace w @ Render promotion_template (promotion_args u r icon bg) #
          [CreateMessage (channel_id c)
             (username u @ '' just got promoted to '' @ role_name r @ ''!'') (avatarURL u) f]"
      by (simp add: promotion_message_def)
    with Inr show ?thesis by force
  qed
qed

lemma announcePromotion_ready:
  assumes "announce_ready E r g"
  shows "\<exists>c. announcePromotion E u r g w = promotion_message E u r c w"
  using assms
  by (auto simp: announcePromotion_def announce_ready_def split: sum.splits option.splits)

lemma announcePromotion_render:
  assumes "announce_ready E r g" and "icons_answer E r"
  shows "\<exists>args rest. trace (snd (announcePromotion E u r g w)) =
           trace w @ Render promotion_template args # rest \<and>
           (list_ex is_create_message rest \<longleftrightarrow> \<not> isl (render E promotion_template args))"
proof -
  from announcePromotion_ready [OF assms(1)] obtain c where
    "announcePromotion E u r g w = promotion_message E u r c w" by blast
  with promotion_message_render [OF assms(2), of u c w] show ?thesis by simp
qed


lemma announce_events_no_role_ops:
  "list_all (\<lambda>e. is_render e \<or> is_create_message e) evs \<Longrightarrow>
     filter (is_remove_of x) evs = [] \<and> filter (is_add_of x) evs = []"
proof (induction evs)
  case Nil
  show ?case by simp
next
  case (Cons e evs)
  then show ?case by (cases e) simp_all
qed

lemma role_step_absent:
  "rid \<notin> set (guild_roles g) \<Longrightarrow> role_step E u server g UH SH w rid = w"
  by (simp add: role_step_def)

lemma role_step_remove:
  "rid \<in> set (guild_roles g) \<Longrightarrow> rid \<in> set UH \<Longrightarrow> rid \<notin> set SH \<Longrightarrow>
     trace (role_step E u server g UH SH w rid) =
       trace w @ [RemoveMemberRole (guild_id g) (user_snowflake u) rid remove_reason]"
  by (simp add: role_step_def removeMemberRole_def Let_def)

lemma role_step_keep:
  "rid \<in> set (guild_roles g) \<Longrightarrow> (rid \<in> set UH \<longleftrightarrow> rid \<in> set SH) \<Longrightarrow>
     role_step E u server g UH SH w rid = w"
  by (auto simp: role_step_def Let_def)

lemma role_step_add:
  assumes "rid \<in> set (guild_roles g)" and "rid \<notin> set UH" and "rid \<in> set SH"
  shows "\<exists>evs. trace (role_step E u server g UH SH w rid) =
           trace w @ AddMemberRole (guild_id g) (user_snowflake u) rid add_reason # evs \<and>
           list_all (\<lambda>e. is_render e \<or> is_create_message e) evs"
proof (cases "find_first (\<lambda>x. role_snowflake x = rid) (roles server)")
  case None
  with assms have "trace (role_step E u server g UH SH w rid) =
      trace w @ AddMemberRole (guild_id g) (user_snowflake u) rid add_reason # []"
    by (simp add: role_step_def addMemberRole_def Let_def)
  then show ?thesis by force
next
  case (Some r)
  let ?w1 = "addMemberRole g (user_snowflake u) rid add_reason w"
  from announcePromotion_trace [of E u r g ?w1] obtain evs where
    evs: "trace (snd (announcePromotion E u r g ?w1)) = trace ?w1 @ evs"
      "list_all (\<lambda>e. is_render e \<or> is_create_message e) evs"
    by blast
  from assms Some have "role_step E u server g UH SH w rid = snd (announcePromotion E u r g ?w1)"
    by (simp add: role_step_def Let_def)
  with evs have "trace (role_step E u server g UH SH w rid) =
      trace w @ AddMemberRole (guild_id g) (user_snowflake u) rid add_reason # evs"
    by (simp add: addMemberRole_def)
  with evs(2) show ?thesis by blast
qed

lemma role_step_ops:
  "\<exists>evs. trace (role_step E u server g UH SH w rid) = trace w @ evs \<and>
     filter (is_remove_of x) evs = (if x = rid then expected_removal g u UH SH rid else []) \<and>
     filter (is_add_of x) evs = (if x = rid then expected_addition g u UH SH rid else [])"
proof (cases "rid \<in> set (guild_roles g)")
  case False
  then have "trace (role_step E u server g UH SH w rid) = trace w @ []"
    by (simp add: role_step_absent)
  with False show ?thesis
    unfolding expected_removal_def expected_addition_def by force
next
  case True
  show ?thesis
  proof (cases "rid \<in> set UH")
    case has: True
    show ?thesis
    proof (cases "rid \<in> set SH")
      case True
      with has \<open>rid \<in> set (guild_roles g)\<close>
      have "trace (role_step E u server g UH SH w rid) = trace w @ []"
        by (simp add: role_step_keep)
      with True has show ?thesis
        unfolding expected_removal_def expected_addition_def by force
    next
      case False
      from role_step_remove [OF \<open>rid \<in> set (guild_roles g)\<close> has False]
      have "trace (role_step E u server g UH SH w rid) =
          trace w @ [RemoveMemberRole (guild_id g) (user_snowflake u) rid remove_reason]" .
      moreover have "filter (is_remove_of x)
            [RemoveMemberRole (guild_id g) (user_snowflake u) rid remove_reason] =
          (if x = rid then expected_removal g u UH SH rid else [])"
        using True has False by (auto simp: expected_removal_def)
      moreover have "filter (is_add_of x)
            [RemoveMemberRole (guild_id g) (user_snowflake u) rid remove_reason] =
          (if x = rid then expected_addition g u UH SH rid else [])"
        using True has False by (auto simp: expected_addition_def)
      ultimately show ?thesis by blast
    qed
  next
    case hasnt: False
    show ?thesis
    proof (cases "rid \<in> set SH")
      case False
      with hasnt \<open>rid \<in> set (guild_roles g)\<close>
      have "trace (role_step E u server g UH SH w rid) = trace w @ []"
        by (simp add: role_step_keep)
      with False hasnt show ?thesis
        unfolding expected_removal_def expected_addition_def by force
    next
      case True
      from role_step_add [OF \<open>rid \<in> set (guild_roles g)\<close> hasnt True, of E u server w]
      obtain evs where
        evs: "trace (role_step E u server g UH SH w rid) =
            trace w @ AddMemberRole (guild_id g) (user_snowflake u) rid add_reason # evs"
          "list_all (\<lambda>e. is_render e \<or> is_create_message e) evs"
        by blast
      from announce_events_no_role_ops [OF evs(2), of x]
      have none: "filter (is_remove_of x) evs = []" "filter (is_add_of x) evs = []" by simp_all
      have "filter (is_remove_of x)
            (AddMemberRole (guild_id g) (user_snowflake u) rid add_reason # evs) =
          (if x = rid then expected_removal g u UH SH rid else [])"
        using True hasnt none by (auto simp: expected_removal_def)
      moreover have "filter (is_add_of x)
            (AddMemberRole (guild_id g) (user_snowflake u) rid add_reason # evs) =
          (if x = rid then expected_addition g u UH SH rid else [])"
        using True hasnt \<open>rid \<in> set (guild_roles g)\<close> none
        by (auto simp: expected_addition_def)
      ultimately show ?thesis using evs(1) by blast
    qed
  qed
qed

lemma role_steps_ops:
  "distinct rs \<Longrightarrow>
   \<exists>evs. trace (foldl (role_step E u server g UH SH) w rs) = trace w @ evs \<and>
     filter (is_remove_of x) evs = (if x \<in> set rs then expected_removal g u UH SH x else []) \<and>
     filter (is_add_of x) evs = (if x \<in> set rs then expected_addition g u UH SH x else [])"
proof (induction rs arbitrary: w)
  case Nil
  show ?case by simp
next
  case (Cons rid rs)
  let ?w1 = "role_step E u server g UH SH w rid"
  from role_step_ops [of E u server g UH SH w rid x] obtain evs1 where
    e1: "trace ?w1 = trace w @ evs1"
      "filter (is_remove_of x) evs1 = (if x = rid then expected_removal g u UH SH rid else [])"
      "filter (is_add_of x) evs1 = (if x = rid then expected_addition g u UH SH rid else [])"
    by blast
  from Cons.prems have d: "distinct rs" and notin: "rid \<notin> set rs" by simp_all
  from Cons.IH [OF d, of ?w1] obtain evs2 where
    e2: "trace (foldl (role_step E u server g UH SH) ?w1 rs) = trace ?w1 @ evs2"
      "filter (is_remove_of x) evs2 = (if x \<in> set rs then expected_removal g u UH SH x else [])"
      "filter (is_add_of x) evs2 = (if x \<in> set rs then expected_addition g u UH SH x else [])"
    by blast
  have "trace (foldl (role_step E u server g UH SH) w (rid # rs)) = trace w @ (evs1 @ evs2)"
    using e1(1) e2(1) by simp
  moreover have "filter (is_remove_of x) (evs1 @ evs2) =
      (if x \<in> set (rid # rs) then expected_removal g u UH SH x else [])"
    using e1(2) e2(2) notin by auto
  moreover have "filter (is_add_of x) (evs1 @ evs2) =
      (if x \<in> set (rid # rs) then expected_addition g u UH SH x else [])"
    using e1(3) e2(3) notin by auto
  ultimately show ?case by blast
qed

lemma set_shouldHave:
  "rid \<in> set (shouldHave E u server) \<longleftrightarrow>
     list_ex (\<lambda>x. role_snowflake x = rid \<and> test E x u) (roles server)"
  by (auto simp: shouldHave_def set_new_Set list_ex_iff)

text \<open>
  With one role definition per snowflake, a definition passes the test exactly when some
  definition with its snowflake does.
\<close>

lemma own_test:
  assumes "distinct (map role_snowflake (roles server))" and "x \<in> set (roles server)"
  shows "list_ex (\<lambda>y. role_snowflake y = role_snowflake x \<and> test E y u) (roles server) \<longleftrightarrow>
           test E x u"
proof -
  from assms(1) have "inj_on role_snowflake (set (roles server))" by (simp add: distinct_map)
  with assms(2) have "\<forall>y\<in>set (roles server). role_snowflake y = role_snowflake x \<longrightarrow> y = x"
    by (auto dest: inj_onD)
  with assms(2) show ?thesis by (auto simp: list_ex_iff)
qed

lemma set_allRoles:
  "rid \<in> set (allRoles server) \<longleftrightarrow> list_ex (\<lambda>x. role_snowflake x = rid) (roles server)"
  by (auto simp: allRoles_def set_new_Set list_ex_iff)

text \<open>
  Claim C1. The server of the guild is registered and the user is a member. For a role
  that the server manages and that exists on the guild, \<^verbatim>\<open>updateUserOnGuild\<close> returns
  and, among the events it adds, the removals of this role are exactly one removal when
  the member holds the role and no role definition of the server with this snowflake
  passes \<^verbatim>\<open>test(user)\<close>, and none otherwise; the additions of this role are exactly
  one addition when the member does not hold the role and such a definition passes, and
  none otherwise. A snowflake stands for its role: with one definition per snowflake the
  test is the role's own.
\<close>

theorem updateUserOnGuild_role_diff:
  assumes srv: "server_where_snowflake E (guild_id g) = Inr (Some server)"
    and mem: "find_first (\<lambda>m. member_id m = user_snowflake u) (guild_members g) = Some m"
    and managed: "list_ex (\<lambda>x. role_snowflake x = rid) (roles server)"
    and known: "rid \<in> set (guild_roles g)"
  shows "fst (updateUserOnGuild E u g w) = Inr () \<and>
         filter (is_remove_of rid) (events_since w (snd (updateUserOnGuild E u g w))) =
           (if rid \<in> set (member_roles m) \<and>
               \<not> list_ex (\<lambda>x. role_snowflake x = rid \<and> test E x u) (roles server)
            then [RemoveMemberRole (guild_id g) (user_snowflake u) rid remove_reason] else []) \<and>
         filter (is_add_of rid) (events_since w (snd (updateUserOnGuild E u g w))) =
           (if rid \<notin> set (member_roles m) \<and>
               list_ex (\<lambda>x. role_snowflake x = rid \<and> test E x u) (roles server)
            then [AddMemberRole (guild_id g) (user_snowflake u) rid add_reason] else [])"
proof -
  let ?UH = "userHas m" and ?SH = "shouldHave E u server"
  let ?w' = "foldl (role_step E u server g ?UH ?SH) w (allRoles server)"
  from srv mem have run: "updateUserOnGuild E u g w = (Inr (), ?w')"
    by (simp add: updateUserOnGuild_def)
  have d: "distinct (allRoles server)" by (simp add: allRoles_def distinct_new_Set)
  from role_steps_ops [OF d, of E u server g ?UH ?SH w rid] obtain evs where
    evs: "trace ?w' = trace w @ evs"
      "filter (is_remove_of rid) evs =
         (if rid \<in> set (allRoles server) then expected_removal g u ?UH ?SH rid else [])"
      "filter (is_add_of rid) evs =
         (if rid \<in> set (allRoles server) then expected_addition g u ?UH ?SH rid else [])"
    by blast
  from events_since_append [OF evs(1)] have since: "events_since w ?w' = evs" .
  from managed have inall: "rid \<in> set (allRoles server)" by (simp add: set_allRoles)
  have has: "rid \<in> set ?UH \<longleftrightarrow> rid \<in> set (member_roles m)"
    by (simp add: userHas_def set_new_Set)
  show ?thesis
    unfolding run using evs(2,3) inall known has since
    by (simp add: expected_removal_def expected_addition_def set_shouldHave)
qed


lemma demo_server_found:
  "server_where_snowflake demo_env (guild_id demo_guild) = Inr (Some demo_server)"
  by (simp add: demo_env_def demo_guild_def)

lemma demo_member_found:
  "find_first (\<lambda>m. member_id m = user_snowflake demo_user) (guild_members demo_guild) =
     Some \<lparr>member_id = ''100'', member_roles = [''A'', ''B'']\<rparr>"
  by (simp add: demo_user_def demo_guild_def)

theorem updateUserOnGuild_role_diff_witness:
  "server_where_snowflake demo_env (guild_id demo_guild) = Inr (Some demo_server) \<and>
   find_first (\<lambda>m. member_id m = user_snowflake demo_user) (guild_members demo_guild) =
     Some \<lparr>member_id = ''100'', member_roles = [''A'', ''B'']\<rparr> \<and>
   list_ex (\<lambda>x. role_snowflake x = ''A'') (roles demo_server) \<and>
   ''A'' \<in> set (guild_roles demo_guild) \<and>
   fst (updateUserOnGuild demo_env demo_user demo_guild demo_world) = Inr () \<and>
   filter (is_remove_of ''A'')
     (events_since demo_world (snd (updateUserOnGuild demo_env demo_user demo_guild demo_world))) =
     [RemoveMemberRole ''500'' ''100'' ''A'' remove_reason] \<and>
   filter (is_add_of ''A'')
     (events_since demo_world (snd (updateUserOnGuild demo_env demo_user demo_guild demo_world))) = [] \<and>
   filter (is_remove_of ''B'')
     (events_since demo_world (snd (updateUserOnGuild demo_env demo_user demo_guild demo_world))) = [] \<and>
   filter (is_add_of ''B'')
     (events_since demo_world (snd (updateUserOnGuild demo_env demo_user demo_guild demo_world))) = [] \<and>
   filter (is_remove_of ''C'')
     (events_since demo_world (snd (updateUserOnGuild demo_env demo_user demo_guild demo_world))) = [] \<and>
   filter (is_add_of ''C'')
     (events_since demo_world (snd (updateUserOnGuild demo_env demo_user demo_guild demo_world))) =
     [AddMemberRole ''500'' ''100'' ''C'' add_reason]"
proof -
  have managed: "list_ex (\<lambda>x. role_snowflake x = ''A'') (roles demo_server)"
    "list_ex (\<lambda>x. role_snowflake x = ''B'') (roles demo_server)"
    "list_ex (\<lambda>x. role_snowflake x = ''C'') (roles demo_server)"
    by (simp_all add: demo_server_def demo_role_def)
  have known: "''A'' \<in> set (guild_roles demo_guild)" "''B'' \<in> set (guild_roles demo_guild)"
    "''C'' \<in> set (guild_roles demo_guild)"
    by (simp_all add: demo_guild_def)
  have ids: "guild_id demo_guild = ''500''" "user_snowflake demo_user = ''100''"
    by (simp_all add: demo_guild_def demo_user_def)
  have tests:
    "\<not> list_ex (\<lambda>x. role_snowflake x = ''A'' \<and> test demo_env x demo_user) (roles demo_server)"
    "list_ex (\<lambda>x. role_snowflake x = ''B'' \<and> test demo_env x demo_user) (roles demo_server)"
    "list_ex (\<lambda>x. role_snowflake x = ''C'' \<and> test demo_env x demo_user) (roles demo_server)"
    by (simp_all add: demo_server_def demo_role_def demo_env_def)
  note a = updateUserOnGuild_role_diff [OF demo_server_found demo_member_found managed(1) known(1),
      of demo_world]
  note b = updateUserOnGuild_role_diff [OF demo_server_found demo_member_found managed(2) known(2),
      of demo_world]
  note c = updateUserOnGuild_role_diff [OF demo_server_found demo_member_found managed(3) known(3),
      of demo_world]
  from a b c show ?thesis
    using demo_server_found demo_member_found managed(1) known(1)
    by (simp add: tests ids)
qed

lemma role_step_events_cases:
  assumes def: "find_first (\<lambda>x. role_snowflake x = rid) (roles server) = Some r"
  shows "(rid \<in> set (guild_roles g) \<and> rid \<notin> set UH \<and> rid \<in> set SH \<and>
          role_step E u server g UH SH w rid =
            snd (announcePromotion E u r g (addMemberRole g (user_snowflake u) rid add_reason w))) \<or>
         (events_since w (role_step E u server g UH SH w rid) = []) \<or>
         (events_since w (role_step E u server g UH SH w rid) =
            [RemoveMemberRole (guild_id g) (user_snowflake u) rid remove_reason])"
proof (cases "rid \<in> set (guild_roles g)")
  case False
  then show ?thesis by (simp add: role_step_absent events_since_def)
next
  case True
  show ?thesis
  proof (cases "rid \<in> set UH \<longleftrightarrow> rid \<in> set SH")
    case same: True
    with True show ?thesis by (simp add: role_step_keep events_since_def)
  next
    case False
    show ?thesis
    proof (cases "rid \<in> set UH")
      case has: True
      with False have "rid \<notin> set SH" by simp
      from role_step_remove [OF True has this, of E u server w]
      show ?thesis by (simp add: events_since_def)
    next
      case hasnt: False
      with False have "rid \<in> set SH" by simp
      with True hasnt def show ?thesis by (simp add: role_step_def Let_def)
    qed
  qed
qed

text \<open>
  Claim C7. In the step of the loop for one role, with the server lookup and the static
  data answering: a rendering request is among the events of the step if and only if the
  step added the role and the announcement condition holds (announce flag, owning server
  found with an announcement channel configured, the channel a text channel of the guild);
  when the renderer answers, the same holds for the message in the channel. When the
  condition fails, \<^verbatim>\<open>announcePromotion\<close> returns without an error and changes
  nothing.
\<close>

theorem promotion_announced_iff:
  assumes def: "find_first (\<lambda>x. role_snowflake x = rid) (roles server) = Some r"
    and lookup: "\<not> isl (server_where_id E (role_server_id r))"
    and icons: "icons_answer E r"
  shows "(list_ex is_render (events_since w (role_step E u server g UH SH w rid)) \<longleftrightarrow>
            AddMemberRole (guild_id g) (user_snowflake u) rid add_reason
              \<in> set (events_since w (role_step E u server g UH SH w rid)) \<and>
            announce_ready E r g) \<and>
         ((\<forall>a. \<not> isl (render E promotion_template a)) \<longrightarrow>
            (list_ex is_create_message (events_since w (role_step E u server g UH SH w rid)) \<longleftrightarrow>
               AddMemberRole (guild_id g) (user_snowflake u) rid add_reason
                 \<in> set (events_since w (role_step E u server g UH SH w rid)) \<and>
               announce_ready E r g)) \<and>
         (\<not> announce_ready E r g \<longrightarrow> announcePromotion E u r g w = (Inr (), w))"
proof -
  let ?evs = "events_since w (role_step E u server g UH SH w rid)"
  let ?add = "AddMemberRole (guild_id g) (user_snowflake u) rid add_reason"
  let ?w1 = "addMemberRole g (user_snowflake u) rid add_reason w"
  from lookup obtain so where so: "server_where_id E (role_server_id r) = Inr so"
    by (cases "server_where_id E (role_server_id r)") auto
  have noop: "\<not> announce_ready E r g \<longrightarrow> announcePromotion E u r g w = (Inr (), w)"
    using announcePromotion_noop [OF so] by blast
  from role_step_events_cases [OF def, of g UH SH E u w]
  consider
    (added) "role_step E u server g UH SH w rid = snd (announcePromotion E u r g ?w1)"
  | (nothing) "?evs = []"
  | (removed) "?evs = [RemoveMemberRole (guild_id g) (user_snowflake u) rid remove_reason]"
    by blast
  then have
    "(list_ex is_render ?evs \<longleftrightarrow> ?add \<in> set ?evs \<and> announce_ready E r g) \<and>
     ((\<forall>a. \<not> isl (render E promotion_template a)) \<longrightarrow>
        (list_ex is_create_message ?evs \<longleftrightarrow> ?add \<in> set ?evs \<and> announce_ready E r g))"
  proof cases
    case nothing
    then show ?thesis by simp
  next
    case removed
    then show ?thesis by simp
  next
    case added
    show ?thesis
    proof (cases "announce_ready E r g")
      case False
      from announcePromotion_noop [OF so False, of u ?w1] added
      have "?evs = [?add]" by (simp add: events_since_def addMemberRole_def)
      with False show ?thesis by simp
    next
      case True
      from announcePromotion_render [OF True icons, of u ?w1] obtain args rest where
        tr: "trace (snd (announcePromotion E u r g ?w1)) =
            trace ?w1 @ Render promotion_template args # rest"
        and post: "list_ex is_create_message rest \<longleftrightarrow> \<not> isl (render E promotion_template args)"
        by blast
      from tr added have "?evs = ?add # Render promotion_template args # rest"
        by (simp add: events_since_def addMemberRole_def)
      with True post show ?thesis by auto
    qed
  qed
  with noop show ?thesis by blast
qed

lemma demo_role_C:
  "find_first (\<lambda>x. role_snowflake x = ''C'') (roles demo_server) = Some (demo_role 3 ''C'' True)"
  by (simp add: demo_server_def demo_role_def)

lemma demo_lookup_C: "\<not> isl (server_where_id demo_env (role_server_id (demo_role 3 ''C'' True)))"
  by (simp add: demo_env_def demo_role_def)

lemma demo_icons_C: "icons_answer demo_env (demo_role 3 ''C'' True)"
  by (simp add: icons_answer_def championIcon_def championBg_def demo_env_def)

lemma demo_ready_C: "announce_ready demo_env (demo_role 3 ''C'' True) demo_guild"
  by (simp add: announce_ready_def demo_env_def demo_role_def demo_server_def demo_guild_def)

lemma demo_step_C:
  "events_since demo_world
     (role_step demo_env demo_user demo_server demo_guild [''A'', ''B''] [''B'', ''C'']
        demo_world ''C'') =
   [AddMemberRole ''500'' ''100'' ''C'' add_reason,
    Render promotion_template
      (promotion_args demo_user (demo_role 3 ''C'' True) default_icon default_background),
    CreateMessage ''900'' ''Ori just got promoted to Role C!'' ''avatar.png'' ''promotion.gif'']"
  by (simp add: events_since_def role_step_def Let_def demo_role_C announcePromotion_def
      promotion_message_def championIcon_def championBg_def addMemberRole_def
      demo_env_def demo_guild_def demo_user_def demo_role_def demo_server_def demo_world_def)

theorem promotion_announced_iff_witness:
  "find_first (\<lambda>x. role_snowflake x = ''C'') (roles demo_server) = Some (demo_role 3 ''C'' True) \<and>
   \<not> isl (server_where_id demo_env (role_server_id (demo_role 3 ''C'' True))) \<and>
   icons_answer demo_env (demo_role 3 ''C'' True) \<and>
   announce_ready demo_env (demo_role 3 ''C'' True) demo_guild \<and>
   AddMemberRole (guild_id demo_guild) (user_snowflake demo_user) ''C'' add_reason
     \<in> set (events_since demo_world
         (role_step demo_env demo_user demo_server demo_guild [''A'', ''B''] [''B'', ''C'']
            demo_world ''C'')) \<and>
   list_ex is_render
     (events_since demo_world
        (role_step demo_env demo_user demo_server demo_guild [''A'', ''B''] [''B'', ''C'']
           demo_world ''C'')) \<and>
   list_ex is_create_message
     (events_since demo_world
        (role_step demo_env demo_user demo_server demo_guild [''A'', ''B''] [''B'', ''C'']
           demo_world ''C''))"
proof -
  have added: "AddMemberRole (guild_id demo_guild) (user_snowflake demo_user) ''C'' add_reason
     \<in> set (events_since demo_world
         (role_step demo_env demo_user demo_server demo_guild [''A'', ''B''] [''B'', ''C'']
            demo_world ''C''))"
    by (simp add: demo_step_C) (simp add: demo_guild_def demo_user_def)
  have renders: "\<forall>a. \<not> isl (render demo_env promotion_template a)"
    by (simp add: demo_env_def)
  from promotion_announced_iff [OF demo_role_C demo_lookup_C demo_icons_C,
      of demo_world demo_user demo_guild "[''A'', ''B'']" "[''B'', ''C'']"]
    added demo_ready_C renders
  have "list_ex is_render
     (events_since demo_world
        (role_step demo_env demo_user demo_server demo_guild [''A'', ''B''] [''B'', ''C'']
           demo_world ''C'')) \<and>
    list_ex is_create_message
     (events_since demo_world
        (role_step demo_env demo_user demo_server demo_guild [''A'', ''B''] [''B'', ''C'']
           demo_world ''C''))"
    by blast
  with demo_role_C demo_lookup_C demo_icons_C demo_ready_C added show ?thesis by blast
qed

section \<open>Properties of fetchAccounts\<close>

lemma accounts_loop_length:
  "accounts_loop E u i copy accs w = (r, accs', w') \<Longrightarrow> length accs' = length accs"
proof (induction copy arbitrary: i accs w)
  case Nil
  then show ?case by simp
next
  case (Cons account rest)
  show ?case
  proof (cases "getSummonerById E (region account) (summoner_id account)")
    case (Inl e)
    with Cons.prems show ?thesis by simp
  next
    case (Inr found)
    show ?thesis
    proof (cases found)
      case None
      with Inr Cons.prems Cons.IH show ?thesis by simp
    next
      case (Some summoner)
      show ?thesis
      proof (cases "summoner_name summoner \<noteq> account_username account")
        case True
        with Inr Some Cons.prems
        have "accounts_loop E u (Suc i) rest
            (accs[i := account\<lparr>account_username := summoner_name summoner\<rparr>])
            (update_account_username account (summoner_name summoner) w) = (r, accs', w')"
          by simp
        from Cons.IH [OF this] show ?thesis by simp
      next
        case False
        with Inr Some Cons.prems Cons.IH show ?thesis by simp
      qed
    qed
  qed
qed

lemma fetchAccounts_keeps_length:
  assumes "fetchAccounts E u w = (r, u', w')"
  shows "\<exists>accs. accounts u' = Some accs \<and> length accs = length (loaded_accounts u w)"
proof -
  obtain r0 accs w1 where
    loop: "accounts_loop E u 0 (loaded_accounts u w) (loaded_accounts u w) w = (r0, accs, w1)"
    by (cases "accounts_loop E u 0 (loaded_accounts u w) (loaded_accounts u w) w") auto
  with assms have "accounts u' = Some accs" by (auto simp: fetchAccounts_def)
  with accounts_loop_length [OF loop] show ?thesis by simp
qed

text \<open>
  Claim C4. The second account of the user of the concrete run is not found by
  \<^verbatim>\<open>getSummonerById\<close>. \<^verbatim>\<open>fetchAccounts\<close> deletes its row and notifies the user
  once, and returns; the collection \<^verbatim>\<open>user.accounts\<close> still holds the account,
  since \<^verbatim>\<open>slice\<close> builds a copy where \<^verbatim>\<open>splice\<close> would have removed the element
  (the lemma before says so for every input: the collection keeps its length).
\<close>

theorem fetchAccounts_transferred_account_stays:
  "fetchAccounts demo_env demo_user demo_world =
     (Inr (),
      demo_user\<lparr>accounts := Some [demo_account1, demo_account2]\<rparr>,
      demo_world\<lparr>db_accounts := [demo_account1],
                 trace := [DeleteAccount 2, Notify ''100'' ''Beta'' ''na'']\<rparr>)"
  by (simp add: fetchAccounts_def loaded_accounts_def related_accounts_def delete_account_def
      notify_def discard_def demo_defs)

section \<open>Properties of fetchAndUpdateAll and updateUser\<close>

subsection \<open>Events are only ever added\<close>

lemma grows_refl: "grows w w"
  by (simp add: grows_def)

lemma grows_append: "trace w' = trace w @ evs \<Longrightarrow> grows w w'"
  by (simp add: grows_def)

lemma grows_events: "grows w w' \<Longrightarrow> trace w' = trace w @ events_since w w'"
  by (metis append_take_drop_id events_since_def grows_def)

lemma grows_trans: "grows w w1 \<Longrightarrow> grows w1 w2 \<Longrightarrow> grows w w2"
proof -
  assume a: "grows w w1" and b: "grows w1 w2"
  from grows_events [OF a] grows_events [OF b]
  have "trace w2 = trace w @ (events_since w w1 @ events_since w1 w2)" by simp
  then show ?thesis by (rule grows_append)
qed

lemma events_since_trans:
  assumes "grows w w1" and "grows w1 w2"
  shows "events_since w w2 = events_since w w1 @ events_since w1 w2"
proof -
  from grows_events [OF assms(1)] grows_events [OF assms(2)]
  have "trace w2 = trace w @ (events_since w w1 @ events_since w1 w2)" by simp
  then show ?thesis by (rule events_since_append)
qed

lemma grows_writes:
  "grows w (delete_account a w)" "grows w (update_account_username a n w)"
  "grows w (notify u a w)" "grows w (insert_stat u c l s g w)" "grows w (delete_stat old w)"
  "grows w (update_stat_games old k w)" "grows w (delete_ranks u w)"
  "grows w (insert_rank u q t w)" "grows w (reportError e w)"
  "grows w (addMemberRole gd uid rid reason w)" "grows w (removeMemberRole gd uid rid reason w)"
  by (simp_all add: grows_def delete_account_def update_account_username_def notify_def
      insert_stat_def delete_stat_def update_stat_games_def delete_ranks_def insert_rank_def
      reportError_def addMemberRole_def removeMemberRole_def)

lemma accounts_loop_grows:
  "grows w (snd (snd (accounts_loop E u i copy accs w)))"
proof (induction copy arbitrary: i accs w)
  case Nil
  show ?case by (simp add: grows_refl)
next
  case (Cons account rest)
  show ?case
  proof (cases "getSummonerById E (region account) (summoner_id account)")
    case (Inl e)
    then show ?thesis by (simp add: grows_refl)
  next
    case (Inr found)
    show ?thesis
    proof (cases found)
      case None
      have "grows w (notify u account (delete_account account w))"
        by (rule grows_trans [OF grows_writes(1) grows_writes(3)])
      from grows_trans [OF this Cons.IH] Inr None show ?thesis by (simp add: discard_def)
    next
      case (Some summoner)
      show ?thesis
      proof (cases "summoner_name summoner \<noteq> account_username account")
        case True
        from grows_trans [OF grows_writes(2) Cons.IH] Inr Some True show ?thesis by simp
      next
        case False
        with Inr Some Cons.IH show ?thesis by simp
      qed
    qed
  qed
qed

lemma fetchAccounts_grows: "grows w (snd (snd (fetchAccounts E u w)))"
  using accounts_loop_grows [of w E u 0 "loaded_accounts u w" "loaded_accounts u w"]
  by (cases "accounts_loop E u 0 (loaded_accounts u w) (loaded_accounts u w) w")
     (simp add: fetchAccounts_def)

lemma games_write_grows: "grows w (games_write u st p w)"
  by (simp add: games_write_def grows_refl grows_writes split: option.split)

lemma games_writes_grows: "grows w (games_writes u st ps w)"
proof (induction ps arbitrary: w)
  case Nil
  show ?case by (simp add: grows_refl)
next
  case (Cons p ps)
  from grows_trans [OF games_write_grows Cons.IH] show ?case by simp
qed

lemma fetchGamesPlayed_grows: "grows w (snd (snd (fetchGamesPlayed E u w)))"
  by (simp add: fetchGamesPlayed_def Let_def grows_refl games_writes_grows split: sum.split)

lemma mastery_write_grows: "grows w (mastery_write u st p w)"
  by (simp add: mastery_write_def grows_refl grows_writes
      grows_trans [OF grows_writes(5) grows_writes(4)] split: option.split)

lemma mastery_writes_grows: "grows w (mastery_writes u st ps w)"
proof (induction ps arbitrary: w)
  case Nil
  show ?case by (simp add: grows_refl)
next
  case (Cons p ps)
  from grows_trans [OF mastery_write_grows Cons.IH] show ?case by simp
qed

lemma fetchMasteryScores_grows: "grows w (snd (snd (fetchMasteryScores E u w)))"
  by (simp add: fetchMasteryScores_def Let_def grows_refl mastery_writes_grows split: sum.split)

lemma ranked_inserts_grows: "grows w (ranked_inserts u m w)"
proof (induction m arbitrary: w)
  case Nil
  show ?case by (simp add: grows_refl)
next
  case (Cons p m)
  from grows_trans [OF grows_writes(8) Cons.IH] show ?case by simp
qed

lemma fetchRanked_grows: "grows w (snd (snd (fetchRanked E u w)))"
  by (simp add: fetchRanked_def Let_def grows_refl
      grows_trans [OF grows_writes(7) ranked_inserts_grows] split: sum.split)

lemma role_step_grows: "grows w (role_step E u server g UH SH w rid)"
  using role_step_ops [of E u server g UH SH w rid rid] by (auto intro: grows_append)

lemma role_steps_grows: "grows w (foldl (role_step E u server g UH SH) w rs)"
proof (induction rs arbitrary: w)
  case Nil
  show ?case by (simp add: grows_refl)
next
  case (Cons rid rs)
  from grows_trans [OF role_step_grows Cons.IH] show ?case by simp
qed

lemma updateUserOnGuild_grows: "grows w (snd (updateUserOnGuild E u g w))"
  by (simp add: updateUserOnGuild_def grows_refl role_steps_grows split: sum.split option.split)

lemma growing_guild_task: "growing (guild_task E g)"
  unfolding growing_def
proof
  fix s :: state
  obtain u w where s: "s = (u, w)" by (cases s) auto
  obtain r w1 where t: "updateUserOnGuild E u g w = (r, w1)"
    by (cases "updateUserOnGuild E u g w") auto
  from updateUserOnGuild_grows [of w E u g] t have "grows w w1" by simp
  with s t show "grows (snd s) (snd (snd (guild_task E g s)))" by (simp add: guild_task_def)
qed

lemma growing_fetchers:
  "growing (\<lambda>(u, w). fetchMasteryScores E u w)" "growing (\<lambda>(u, w). fetchRanked E u w)"
  unfolding growing_def
  by (auto simp: fetchMasteryScores_grows fetchRanked_grows)

lemma promise_all_grows:
  "list_all growing tasks \<Longrightarrow> promise_all tasks s = (r, s1, rest) \<Longrightarrow>
     grows (snd s) (snd s1) \<and> list_all growing rest"
proof (induction tasks arbitrary: s)
  case Nil
  then show ?case by (auto simp: grows_refl)
next
  case (Cons task tasks)
  from Cons.prems(1) have g: "growing task" and gs: "list_all growing tasks" by simp_all
  obtain r0 s0 where t: "task s = (r0, s0)" by (cases "task s") auto
  from g have "grows (snd s) (snd (snd (task s)))" unfolding growing_def by blast
  with t have step: "grows (snd s) (snd s0)" by simp
  show ?case
  proof (cases r0)
    case (Inl e)
    with t Cons.prems(2) have "s1 = s0" "rest = tasks" by simp_all
    with step gs show ?thesis by simp
  next
    case (Inr x)
    with t Cons.prems(2) have "promise_all tasks s0 = (r, s1, rest)" by simp
    from Cons.IH [OF gs this] step show ?thesis by (auto intro: grows_trans)
  qed
qed

lemma settle_grows: "list_all growing rest \<Longrightarrow> grows (snd s) (snd (settle rest s))"
proof (induction rest arbitrary: s)
  case Nil
  show ?case by (simp add: grows_refl)
next
  case (Cons task rest)
  from Cons.prems have g: "growing task" and gs: "list_all growing rest" by simp_all
  from g have "grows (snd s) (snd (snd (task s)))" unfolding growing_def by blast
  from grows_trans [OF this Cons.IH [OF gs]] show ?case by simp
qed

lemma updateUser_grows:
  assumes "updateUser E u w = (r, w1, rest)"
  shows "grows w w1 \<and> list_all growing rest"
proof -
  let ?tasks = "map (\<lambda>server. guild_task E server) (shared_guilds E u)"
  obtain r0 s0 rest0 where p: "promise_all ?tasks (u, w) = (r0, s0, rest0)"
    by (cases "promise_all ?tasks (u, w)") auto
  have "list_all growing ?tasks" by (simp add: list_all_iff growing_guild_task)
  from promise_all_grows [OF this p] have "grows w (snd s0)" "list_all growing rest0" by simp_all
  moreover from assms p have "w1 = snd s0" "rest = rest0"
    by (cases r0; simp add: updateUser_def)+
  ultimately show ?thesis by simp
qed

subsection \<open>Errors of the block under try\<close>

lemma pipeline_grows:
  assumes "pipeline E u w = (r, u1, w1, rest)"
  shows "grows w w1 \<and> list_all growing rest"
proof -
  obtain ra ua wa where a: "fetchAccounts E u w = (ra, ua, wa)"
    by (cases "fetchAccounts E u w") auto
  from fetchAccounts_grows [of w E u] a have ga: "grows w wa" by simp
  show ?thesis
  proof (cases ra)
    case (Inl e)
    with a assms ga show ?thesis by (simp add: pipeline_def)
  next
    case ra: (Inr x)
    obtain rg ug wg where g: "fetchGamesPlayed E ua wa = (rg, ug, wg)"
      by (cases "fetchGamesPlayed E ua wa") auto
    from fetchGamesPlayed_grows [of wa E ua] g have "grows wa wg" by simp
    with ga have gg: "grows w wg" by (rule grows_trans)
    show ?thesis
    proof (cases rg)
      case (Inl e)
      with a ra g assms gg show ?thesis by (simp add: pipeline_def)
    next
      case rg: (Inr y)
      let ?tasks = "[\<lambda>(u, w). fetchMasteryScores E u w, \<lambda>(u, w). fetchRanked E u w]"
      obtain rp sp restp where p: "promise_all ?tasks (ug, wg) = (rp, sp, restp)"
        by (cases "promise_all ?tasks (ug, wg)") auto
      have "list_all growing ?tasks" by (simp add: growing_fetchers)
      from promise_all_grows [OF this p] have "grows wg (snd sp)" and gr: "list_all growing restp"
        by simp_all
      with gg have gp: "grows w (snd sp)" by (blast intro: grows_trans)
      obtain up wp where sp: "sp = (up, wp)" by (cases sp) auto
      show ?thesis
      proof (cases rp)
        case (Inl e)
        with a ra g rg p sp assms gp gr show ?thesis by (simp add: pipeline_def)
      next
        case rp: (Inr z)
        obtain ru wu restu where uu: "updateUser E up wp = (ru, wu, restu)"
          by (cases "updateUser E up wp") auto
        from updateUser_grows [OF uu] have "grows wp wu" "list_all growing restu" by simp_all
        moreover from gp sp have "grows w wp" by simp
        ultimately have "grows w wu" "list_all growing restu" by (blast intro: grows_trans)+
        with a ra g rg p sp rp uu assms show ?thesis by (simp add: pipeline_def)
      qed
    qed
  qed
qed

lemma caught_and_reported:
  assumes res: "resolve_user arg w = Inr u" and fails: "fst (pipeline E u w) = Inl e"
  shows "reported e w (snd (fetchAndUpdateAll E arg w))"
proof -
  from fails obtain u1 w1 rest where p: "pipeline E u w = (Inl e, u1, w1, rest)"
    by (cases "pipeline E u w") auto
  from pipeline_grows [OF p] have g1: "grows w w1" and gr: "list_all growing rest" by simp_all
  let ?s = "settle rest (u1, reportError e w1)"
  from res p have fin: "snd (fetchAndUpdateAll E arg w) = snd ?s"
    by (simp add: fetchAndUpdateAll_def split: prod.split)
  from settle_grows [OF gr, of "(u1, reportError e w1)"]
  have g3: "grows (reportError e w1) (snd ?s)" by simp
  have g2: "grows w1 (reportError e w1)" by (rule grows_writes)
  have "events_since w (snd ?s) =
      events_since w w1 @ events_since w1 (reportError e w1) @ events_since (reportError e w1) (snd ?s)"
    using events_since_trans [OF g1 grows_trans [OF g2 g3]] events_since_trans [OF g2 g3] by simp
  moreover have "events_since w1 (reportError e w1) = [ReportError e]"
    by (simp add: events_since_def reportError_def)
  ultimately show ?thesis by (simp add: reported_def fin)
qed

lemma never_thrown:
  assumes "resolve_user arg w = Inr u"
  shows "\<not> isl (fst (fetchAndUpdateAll E arg w))"
proof -
  obtain r u1 w1 rest where p: "pipeline E u w = (r, u1, w1, rest)"
    by (cases "pipeline E u w") auto
  with assms show ?thesis
    by (cases r) (simp_all add: fetchAndUpdateAll_def split: prod.split)
qed

lemma pipeline_fetchAccounts_error:
  "fst (fetchAccounts E u w) = Inl e \<Longrightarrow> fst (pipeline E u w) = Inl e"
  by (cases "fetchAccounts E u w") (simp add: pipeline_def)

lemma pipeline_fetchGamesPlayed_error:
  "fetchAccounts E u w = (Inr x, u1, w1) \<Longrightarrow> fst (fetchGamesPlayed E u1 w1) = Inl e \<Longrightarrow>
     fst (pipeline E u w) = Inl e"
  by (cases "fetchGamesPlayed E u1 w1") (simp add: pipeline_def)

lemma fetchRanked_fails:
  "fst (fetchRanked E u w) = Inl e \<longleftrightarrow> ranked_accounts E (loaded_accounts u w) [] = Inl e"
  by (simp add: fetchRanked_def Let_def split: sum.split)

lemma fetchMasteryScores_accounts:
  "loaded_accounts (fst (snd (fetchMasteryScores E u w))) w' = loaded_accounts u w"
  by (simp add: fetchMasteryScores_def Let_def loaded_accounts_def split: sum.split)

lemma pipeline_fetchers_error:
  assumes a: "fetchAccounts E u w = (Inr x, u1, w1)"
    and g: "fetchGamesPlayed E u1 w1 = (Inr y, u2, w2)"
    and f: "fst (fetchMasteryScores E u2 w2) = Inl e \<or> fst (fetchRanked E u2 w2) = Inl e"
  shows "\<exists>e'. (fst (fetchMasteryScores E u2 w2) = Inl e' \<or> fst (fetchRanked E u2 w2) = Inl e') \<and>
           fst (pipeline E u w) = Inl e'"
proof -
  obtain rm u3 w3 where m: "fetchMasteryScores E u2 w2 = (rm, u3, w3)"
    by (cases "fetchMasteryScores E u2 w2") auto
  show ?thesis
  proof (cases rm)
    case (Inl e')
    with a g m have "fst (pipeline E u w) = Inl e'" by (simp add: pipeline_def)
    with m Inl show ?thesis by auto
  next
    case (Inr z)
    with m f have "fst (fetchRanked E u2 w2) = Inl e" by simp
    then have "ranked_accounts E (loaded_accounts u2 w2) [] = Inl e"
      by (simp add: fetchRanked_fails)
    moreover from fetchMasteryScores_accounts [of E u2 w2 w3] m
    have "loaded_accounts u3 w3 = loaded_accounts u2 w2" by simp
    ultimately have r: "fst (fetchRanked E u3 w3) = Inl e" by (simp add: fetchRanked_fails)
    then obtain u4 w4 where "fetchRanked E u3 w3 = (Inl e, u4, w4)"
      by (cases "fetchRanked E u3 w3") auto
    with a g m Inr have "fst (pipeline E u w) = Inl e" by (simp add: pipeline_def)
    with \<open>fst (fetchRanked E u2 w2) = Inl e\<close> show ?thesis by auto
  qed
qed

lemma pipeline_updateUser_error:
  "fetchAccounts E u w = (Inr x, u1, w1) \<Longrightarrow> fetchGamesPlayed E u1 w1 = (Inr y, u2, w2) \<Longrightarrow>
     fetchMasteryScores E u2 w2 = (Inr z, u3, w3) \<Longrightarrow> fetchRanked E u3 w3 = (Inr v, u4, w4) \<Longrightarrow>
     fst (updateUser E u4 w4) = Inl e \<Longrightarrow> fst (pipeline E u w) = Inl e"
  by (cases "updateUser E u4 w4") (simp add: pipeline_def)

lemma updateUserOnGuild_throws:
  "fst (updateUserOnGuild E u g w) = Inl e \<longleftrightarrow> server_where_snowflake E (guild_id g) = Inl e"
  by (simp add: updateUserOnGuild_def split: sum.split option.split)

lemma promise_all_throws:
  assumes "\<exists>t\<in>set tasks. \<forall>v. isl (fst (t v))"
  shows "\<exists>t\<in>set tasks. \<exists>e. fst (promise_all tasks s) = Inl e \<and> (\<exists>v. fst (t v) = Inl e)"
  using assms
proof (induction tasks arbitrary: s)
  case Nil
  then show ?case by simp
next
  case (Cons task rest)
  obtain r s1 where t: "task s = (r, s1)" by (cases "task s") auto
  show ?case
  proof (cases r)
    case (Inl e)
    with t have "fst (promise_all (task # rest) s) = Inl e" by simp
    moreover from t Inl have "\<exists>v. fst (task v) = Inl e" by (intro exI [of _ s]) simp
    moreover have "task \<in> set (task # rest)" by simp
    ultimately show ?thesis by blast
  next
    case (Inr x)
    with t have "\<not> isl (fst (task s))" by simp
    with Cons.prems have "\<exists>t\<in>set rest. \<forall>v. isl (fst (t v))" by (metis set_ConsD)
    from Cons.IH [OF this, of s1] obtain t' e where
      t': "t' \<in> set rest" "fst (promise_all rest s1) = Inl e" "\<exists>v. fst (t' v) = Inl e"
      by blast
    from t Inr t'(2) have "fst (promise_all (task # rest) s) = Inl e" by simp
    moreover from t'(1) have "t' \<in> set (task # rest)" by simp
    ultimately show ?thesis using t'(3) by blast
  qed
qed

lemma guild_task_throws:
  "fst (guild_task E g s) = Inl e \<longleftrightarrow> server_where_snowflake E (guild_id g) = Inl e"
proof -
  obtain u w where s: "s = (u, w)" by (cases s) auto
  obtain r w1 where t: "updateUserOnGuild E u g w = (r, w1)"
    by (cases "updateUserOnGuild E u g w") auto
  from updateUserOnGuild_throws [of E u g w e] t s show ?thesis by (simp add: guild_task_def)
qed

lemma updateUser_rethrows:
  assumes g: "g \<in> set (shared_guilds E u)"
    and fails: "fst (updateUserOnGuild E u g w0) = Inl e"
  shows "\<exists>g'\<in>set (shared_guilds E u). \<exists>e'. fst (updateUser E u w) = Inl e' \<and>
           server_where_snowflake E (guild_id g') = Inl e'"
proof -
  let ?tasks = "map (\<lambda>server. guild_task E server) (shared_guilds E u)"
  from fails have "server_where_snowflake E (guild_id g) = Inl e"
    by (simp add: updateUserOnGuild_throws)
  then have "\<And>v. fst (guild_task E g v) = Inl e" by (simp only: guild_task_throws)
  then have "\<forall>v. isl (fst (guild_task E g v))" by (metis sum.disc(1))
  moreover from g have "guild_task E g \<in> set ?tasks" by simp
  ultimately have "\<exists>t\<in>set ?tasks. \<forall>v. isl (fst (t v))" by blast
  from promise_all_throws [OF this, of "(u, w)"] obtain t e' where
    t: "t \<in> set ?tasks" "fst (promise_all ?tasks (u, w)) = Inl e'" "\<exists>v. fst (t v) = Inl e'"
    by blast
  from t(1) obtain g' where g': "g' \<in> set (shared_guilds E u)" "t = guild_task E g'"
    by auto
  with t(3) have "server_where_snowflake E (guild_id g') = Inl e'"
    by (metis guild_task_throws)
  moreover from t(2) have "fst (updateUser E u w) = Inl e'"
    by (cases "promise_all ?tasks (u, w)") (auto simp: updateUser_def)
  ultimately show ?thesis using g'(1) by blast
qed

text \<open>
  Claim C6. Once the user is at hand, \<^verbatim>\<open>fetchAndUpdateAll\<close> never throws, and an
  error with which an awaited call of the block under \<^verbatim>\<open>try\<close> fails is among the
  reports the run adds: the error of \<^verbatim>\<open>fetchAccounts\<close>, of
  \<^verbatim>\<open>fetchGamesPlayed\<close>, of a fetcher under \<^verbatim>\<open>Promise.all\<close> (of one of the two
  when both fail) and of \<^verbatim>\<open>updateUser\<close>. \<^verbatim>\<open>updateUser\<close> itself does throw: when
  the reconciliation of a guild shared with the user fails, its result is an error that
  the reconciliation of such a guild raised.
\<close>

theorem pipeline_errors_contained:
  assumes "resolve_user arg w = Inr u"
  shows "\<not> isl (fst (fetchAndUpdateAll E arg w)) \<and>
         (\<forall>e. fst (fetchAccounts E u w) = Inl e \<longrightarrow>
            reported e w (snd (fetchAndUpdateAll E arg w))) \<and>
         (\<forall>e x u1 w1. fetchAccounts E u w = (Inr x, u1, w1) \<and>
            fst (fetchGamesPlayed E u1 w1) = Inl e \<longrightarrow>
            reported e w (snd (fetchAndUpdateAll E arg w))) \<and>
         (\<forall>e x u1 w1 y u2 w2. fetchAccounts E u w = (Inr x, u1, w1) \<and>
            fetchGamesPlayed E u1 w1 = (Inr y, u2, w2) \<and>
            (fst (fetchMasteryScores E u2 w2) = Inl e \<or> fst (fetchRanked E u2 w2) = Inl e) \<longrightarrow>
            (\<exists>e'. (fst (fetchMasteryScores E u2 w2) = Inl e' \<or>
                   fst (fetchRanked E u2 w2) = Inl e') \<and>
                  reported e' w (snd (fetchAndUpdateAll E arg w)))) \<and>
         (\<forall>e x u1 w1 y u2 w2 z u3 w3 v u4 w4. fetchAccounts E u w = (Inr x, u1, w1) \<and>
            fetchGamesPlayed E u1 w1 = (Inr y, u2, w2) \<and>
            fetchMasteryScores E u2 w2 = (Inr z, u3, w3) \<and>
            fetchRanked E u3 w3 = (Inr v, u4, w4) \<and>
            fst (updateUser E u4 w4) = Inl e \<longrightarrow>
            reported e w (snd (fetchAndUpdateAll E arg w))) \<and>
         (\<forall>g e v w0 w1. g \<in> set (shared_guilds E v) \<and> fst (updateUserOnGuild E v g w0) = Inl e \<longrightarrow>
            (\<exists>g'\<in>set (shared_guilds E v). \<exists>e'. fst (updateUser E v w1) = Inl e' \<and>
               server_where_snowflake E (guild_id g') = Inl e'))"
proof -
  note rep = caught_and_reported [OF assms]
  have a: "\<not> isl (fst (fetchAndUpdateAll E arg w))"
    using assms by (rule never_thrown)
  have b: "\<forall>e. fst (fetchAccounts E u w) = Inl e \<longrightarrow>
            reported e w (snd (fetchAndUpdateAll E arg w))"
    using rep pipeline_fetchAccounts_error by blast
  have c: "\<forall>e x u1 w1. fetchAccounts E u w = (Inr x, u1, w1) \<and>
            fst (fetchGamesPlayed E u1 w1) = Inl e \<longrightarrow>
            reported e w (snd (fetchAndUpdateAll E arg w))"
    using rep pipeline_fetchGamesPlayed_error by blast
  have d: "\<forall>e x u1 w1 y u2 w2. fetchAccounts E u w = (Inr x, u1, w1) \<and>
            fetchGamesPlayed E u1 w1 = (Inr y, u2, w2) \<and>
            (fst (fetchMasteryScores E u2 w2) = Inl e \<or> fst (fetchRanked E u2 w2) = Inl e) \<longrightarrow>
            (\<exists>e'. (fst (fetchMasteryScores E u2 w2) = Inl e' \<or>
                   fst (fetchRanked E u2 w2) = Inl e') \<and>
                  reported e' w (snd (fetchAndUpdateAll E arg w)))"
  proof (intro allI impI)
    fix e x u1 w1 y u2 w2
    assume h: "fetchAccounts E u w = (Inr x, u1, w1) \<and>
            fetchGamesPlayed E u1 w1 = (Inr y, u2, w2) \<and>
            (fst (fetchMasteryScores E u2 w2) = Inl e \<or> fst (fetchRanked E u2 w2) = Inl e)"
    then have h1: "fetchAccounts E u w = (Inr x, u1, w1)"
      and h2: "fetchGamesPlayed E u1 w1 = (Inr y, u2, w2)"
      and h3: "fst (fetchMasteryScores E u2 w2) = Inl e \<or> fst (fetchRanked E u2 w2) = Inl e"
      by simp_all
    from pipeline_fetchers_error [OF h1 h2 h3] obtain e' where
      "fst (fetchMasteryScores E u2 w2) = Inl e' \<or> fst (fetchRanked E u2 w2) = Inl e'"
      "fst (pipeline E u w) = Inl e'" by blast
    with rep show "\<exists>e'. (fst (fetchMasteryScores E u2 w2) = Inl e' \<or>
                   fst (fetchRanked E u2 w2) = Inl e') \<and>
                  reported e' w (snd (fetchAndUpdateAll E arg w))" by blast
  qed
  have f: "\<forall>e x u1 w1 y u2 w2 z u3 w3 v u4 w4. fetchAccounts E u w = (Inr x, u1, w1) \<and>
            fetchGamesPlayed E u1 w1 = (Inr y, u2, w2) \<and>
            fetchMasteryScores E u2 w2 = (Inr z, u3, w3) \<and>
            fetchRanked E u3 w3 = (Inr v, u4, w4) \<and>
            fst (updateUser E u4 w4) = Inl e \<longrightarrow>
            reported e w (snd (fetchAndUpdateAll E arg w))"
    using rep pipeline_updateUser_error by blast
  have g: "\<forall>g e v w0 w1. g \<in> set (shared_guilds E v) \<and> fst (updateUserOnGuild E v g w0) = Inl e \<longrightarrow>
            (\<exists>g'\<in>set (shared_guilds E v). \<exists>e'. fst (updateUser E v w1) = Inl e' \<and>
               server_where_snowflake E (guild_id g') = Inl e')"
    using updateUser_rethrows by blast
  from a b c d f g show ?thesis by blast
qed

lemmas run_eval = fetchAccounts_def fetchGamesPlayed_def fetchMasteryScores_def
  fetchRanked_def loaded_accounts_def loaded_stats_def related_accounts_def related_stats_def
  related_ranks_def delete_account_def notify_def discard_def mastery_entry_def mastery_write_def
  insert_stat_def delete_stat_def new_stat_def ranked_result_def insert_rank_def delete_ranks_def
  new_rank_def tier_at_def riot_tiers_def Let_def state_after_games_def state_after_fetch_def

lemma demo_no_mastery_accounts:
  "fst (fetchAccounts demo_env_no_mastery demo_user demo_world) = Inr ()"
  by (simp add: run_eval demo_env_no_mastery_def demo_defs)

lemma demo_no_mastery_games:
  "fst (fetchGamesPlayed demo_env_no_mastery
          (fst (snd (fetchAccounts demo_env_no_mastery demo_user demo_world)))
          (snd (snd (fetchAccounts demo_env_no_mastery demo_user demo_world)))) = Inr ()"
  by (simp add: run_eval demo_env_no_mastery_def demo_defs)

lemma demo_no_mastery_fetchers:
  "fst (fetchMasteryScores demo_env_no_mastery
          (fst (state_after_games demo_env_no_mastery demo_user demo_world))
          (snd (state_after_games demo_env_no_mastery demo_user demo_world))) =
     Inl (Error ''rate limit'') \<and>
   fst (fetchRanked demo_env_no_mastery
          (fst (state_after_games demo_env_no_mastery demo_user demo_world))
          (snd (state_after_games demo_env_no_mastery demo_user demo_world))) = Inr ()"
  by (simp add: run_eval demo_env_no_mastery_def demo_defs)

lemma demo_two_guilds_fetch:
  "fst (fetchAccounts demo_env_two_guilds demo_user demo_world) = Inr () \<and>
   fst (fetchGamesPlayed demo_env_two_guilds
          (fst (snd (fetchAccounts demo_env_two_guilds demo_user demo_world)))
          (snd (snd (fetchAccounts demo_env_two_guilds demo_user demo_world)))) = Inr () \<and>
   fst (fetchMasteryScores demo_env_two_guilds
          (fst (state_after_games demo_env_two_guilds demo_user demo_world))
          (snd (state_after_games demo_env_two_guilds demo_user demo_world))) = Inr () \<and>
   fst (fetchRanked demo_env_two_guilds
          (fst (snd (fetchMasteryScores demo_env_two_guilds
             (fst (state_after_games demo_env_two_guilds demo_user demo_world))
             (snd (state_after_games demo_env_two_guilds demo_user demo_world)))))
          (snd (snd (fetchMasteryScores demo_env_two_guilds
             (fst (state_after_games demo_env_two_guilds demo_user demo_world))
             (snd (state_after_games demo_env_two_guilds demo_user demo_world)))))) = Inr ()"
  by (simp add: run_eval demo_env_two_guilds_def demo_defs)

lemma demo_two_guilds_updateUser:
  "fst (updateUser demo_env_two_guilds
          (fst (state_after_fetch demo_env_two_guilds demo_user demo_world))
          (snd (state_after_fetch demo_env_two_guilds demo_user demo_world))) =
     Inl (Error ''no database'')"
  by (simp add: run_eval updateUser_def shared_guilds_def guild_task_def updateUserOnGuild_def
      demo_env_two_guilds_def demo_defs)

lemma demo_guild_fails:
  "demo_guild\<lparr>guild_id := ''400''\<rparr> \<in> set (shared_guilds demo_env_two_guilds demo_user) \<and>
   fst (updateUserOnGuild demo_env_two_guilds demo_user (demo_guild\<lparr>guild_id := ''400''\<rparr>)
          demo_world) = Inl (Error ''no database'')"
  by (simp add: shared_guilds_def updateUserOnGuild_def demo_env_two_guilds_def demo_env_def
      demo_guild_def demo_user_def)

theorem pipeline_errors_contained_witness:
  "resolve_user (Inl demo_user) demo_world = Inr demo_user \<and>
   \<not> isl (fst (fetchAndUpdateAll demo_env_no_mastery (Inl demo_user) demo_world)) \<and>
   fst (fetchMasteryScores demo_env_no_mastery
          (fst (state_after_games demo_env_no_mastery demo_user demo_world))
          (snd (state_after_games demo_env_no_mastery demo_user demo_world))) =
     Inl (Error ''rate limit'') \<and>
   reported (Error ''rate limit'') demo_world
     (snd (fetchAndUpdateAll demo_env_no_mastery (Inl demo_user) demo_world)) \<and>
   \<not> isl (fst (fetchAndUpdateAll demo_env_two_guilds (Inl demo_user) demo_world)) \<and>
   fst (updateUser demo_env_two_guilds
          (fst (state_after_fetch demo_env_two_guilds demo_user demo_world))
          (snd (state_after_fetch demo_env_two_guilds demo_user demo_world))) =
     Inl (Error ''no database'') \<and>
   reported (Error ''no database'') demo_world
     (snd (fetchAndUpdateAll demo_env_two_guilds (Inl demo_user) demo_world)) \<and>
   demo_guild\<lparr>guild_id := ''400''\<rparr> \<in> set (shared_guilds demo_env_two_guilds demo_user) \<and>
   fst (updateUserOnGuild demo_env_two_guilds demo_user (demo_guild\<lparr>guild_id := ''400''\<rparr>)
          demo_world) = Inl (Error ''no database'') \<and>
   fst (updateUser demo_env_two_guilds demo_user demo_world) = Inl (Error ''no database'')"
proof -
  have res: "resolve_user (Inl demo_user) demo_world = Inr demo_user"
    by (simp add: resolve_user_def)
  note m = pipeline_errors_contained [OF res, of demo_env_no_mastery]
  note t = pipeline_errors_contained [OF res, of demo_env_two_guilds]
  let ?E = demo_env_no_mastery
  let ?a = "fetchAccounts ?E demo_user demo_world"
  let ?sg = "state_after_games ?E demo_user demo_world"
  have a1: "?a = (Inr (), fst (snd ?a), snd (snd ?a))"
    using demo_no_mastery_accounts by (metis prod.collapse)
  have sg: "?sg = snd (fetchGamesPlayed ?E (fst (snd ?a)) (snd (snd ?a)))"
    by (simp add: state_after_games_def case_prod_unfold)
  have g1: "fetchGamesPlayed ?E (fst (snd ?a)) (snd (snd ?a)) = (Inr (), fst ?sg, snd ?sg)"
    using demo_no_mastery_games unfolding sg by (metis prod.collapse)
  have failing: "fst (fetchMasteryScores ?E (fst ?sg) (snd ?sg)) = Inl (Error ''rate limit'') \<or>
      fst (fetchRanked ?E (fst ?sg) (snd ?sg)) = Inl (Error ''rate limit'')"
    using demo_no_mastery_fetchers by simp
  from m [THEN conjunct2, THEN conjunct2, THEN conjunct2, THEN conjunct1, rule_format,
      OF conjI [OF a1 conjI [OF g1 failing]]]
  have "\<exists>e'. (fst (fetchMasteryScores ?E (fst ?sg) (snd ?sg)) = Inl e' \<or>
               fst (fetchRanked ?E (fst ?sg) (snd ?sg)) = Inl e') \<and>
          reported e' demo_world (snd (fetchAndUpdateAll ?E (Inl demo_user) demo_world))" .
  with demo_no_mastery_fetchers
  have rep1: "reported (Error ''rate limit'') demo_world
     (snd (fetchAndUpdateAll ?E (Inl demo_user) demo_world))"
    by auto
  let ?F = demo_env_two_guilds
  let ?b = "fetchAccounts ?F demo_user demo_world"
  let ?tg = "state_after_games ?F demo_user demo_world"
  let ?ms = "fetchMasteryScores ?F (fst ?tg) (snd ?tg)"
  let ?tf = "state_after_fetch ?F demo_user demo_world"
  have b1: "?b = (Inr (), fst (snd ?b), snd (snd ?b))"
    using demo_two_guilds_fetch by (metis prod.collapse)
  have tg: "?tg = snd (fetchGamesPlayed ?F (fst (snd ?b)) (snd (snd ?b)))"
    by (simp add: state_after_games_def case_prod_unfold)
  have b2: "fetchGamesPlayed ?F (fst (snd ?b)) (snd (snd ?b)) = (Inr (), fst ?tg, snd ?tg)"
    using demo_two_guilds_fetch unfolding tg by (metis prod.collapse)
  have b3: "?ms = (Inr (), fst (snd ?ms), snd (snd ?ms))"
    using demo_two_guilds_fetch by (metis prod.collapse)
  have tf: "?tf = snd (fetchRanked ?F (fst (snd ?ms)) (snd (snd ?ms)))"
    by (simp add: state_after_fetch_def case_prod_unfold)
  have b4: "fetchRanked ?F (fst (snd ?ms)) (snd (snd ?ms)) = (Inr (), fst ?tf, snd ?tf)"
    using demo_two_guilds_fetch unfolding tf by (metis prod.collapse)
  from t [THEN conjunct2, THEN conjunct2, THEN conjunct2, THEN conjunct2, THEN conjunct1,
      rule_format,
      OF conjI [OF b1 conjI [OF b2 conjI [OF b3 conjI [OF b4 demo_two_guilds_updateUser]]]]]
  have rep2: "reported (Error ''no database'') demo_world
     (snd (fetchAndUpdateAll ?F (Inl demo_user) demo_world))" .
  have all: "\<And>s e. server_where_snowflake ?F s = Inl e \<Longrightarrow> e = Error ''no database''"
    by (simp add: demo_env_two_guilds_def split: if_splits)
  from t [THEN conjunct2, THEN conjunct2, THEN conjunct2, THEN conjunct2, THEN conjunct2,
      rule_format, OF demo_guild_fails, of demo_world]
  have "\<exists>g'\<in>set (shared_guilds ?F demo_user). \<exists>e'.
      fst (updateUser ?F demo_user demo_world) = Inl e' \<and>
      server_where_snowflake ?F (guild_id g') = Inl e'" .
  then have thrown: "fst (updateUser ?F demo_user demo_world) = Inl (Error ''no database'')"
    using all by auto
  from m [THEN conjunct1] t [THEN conjunct1]
  have "\<not> isl (fst (fetchAndUpdateAll ?E (Inl demo_user) demo_world))"
    "\<not> isl (fst (fetchAndUpdateAll ?F (Inl demo_user) demo_world))" .
  with res demo_no_mastery_fetchers rep1 demo_two_guilds_updateUser rep2 demo_guild_fails thrown
  show ?thesis by blast
qed

subsection \<open>An unknown snowflake\<close>

lemma find_first_absent:
  "s \<notin> set (map user_snowflake xs) \<Longrightarrow> find_first (\<lambda>x. user_snowflake x = s) xs = None"
  by (induction xs) auto

text \<open>
  Claim C10. Called with a snowflake that no stored user has, \<^verbatim>\<open>fetchAndUpdateAll\<close>
  throws the "not found" error and leaves the world as it is: no call, no write, no role
  operation and no error report is among the events.
\<close>

theorem unknown_snowflake_throws:
  assumes "s \<notin> set (map user_snowflake (db_users w))"
  shows "fetchAndUpdateAll E (Inr s) w = (Inl (Error (''User '' @ s @ '' not found.'')), w)"
proof -
  from assms have "find_first (\<lambda>x. user_snowflake x = s) (db_users w) = None"
    by (rule find_first_absent)
  then show ?thesis
    by (simp add: fetchAndUpdateAll_def resolve_user_def user_where_snowflake_def)
qed

theorem unknown_snowflake_throws_witness:
  "''999'' \<notin> set (map user_snowflake (db_users demo_world)) \<and>
   fetchAndUpdateAll demo_env (Inr ''999'') demo_world =
     (Inl (Error ''User 999 not found.''), demo_world)"
proof -
  have h: "''999'' \<notin> set (map user_snowflake (db_users demo_world))"
    by (simp add: demo_world_def demo_user_def)
  from unknown_snowflake_throws [OF h, of demo_env] h show ?thesis by simp
qed

end
